theory Spec2Isabelle
  imports Complex_Main "HOL-Library.AList"
begin

section \<open>Agent kinds, states and errors\<close>

text \<open>
  The agent orchestrator of \<^verbatim>\<open>dist/agents.js\<close> and the status query of
  \<^verbatim>\<open>dist/cli.js\<close>. Strings are \<^typ>\<open>string\<close>; a JavaScript value that may be
  \<^verbatim>\<open>null\<close> or \<^verbatim>\<open>undefined\<close> is an option; every \<^verbatim>\<open>throw\<close> is a
  value of \<open>error\<close>.
\<close>

datatype agent_type = Codex | Cursor | Gemini | Claude | Opencode | Copilot

datatype AgentStatus = RUNNING | COMPLETED | FAILED | STOPPED

datatype Mode = Plan | Edit | Ralph

datatype error =
    UnterminatedQuote string
  | MissingPromptPlaceholder agent_type
  | ConcurrencyLimit int
  | CliNotAvailable string
  | CwdDoesNotExist string
  | CwdNotDirectory string
  | CreateDirFailed string
  | SpawnFailed string

section \<open>splitCommandTemplate\<close>

abbreviation SQ :: char where "SQ \<equiv> CHR 0x27"
abbreviation DQ :: char where "DQ \<equiv> CHR 0x22"
abbreviation BSL :: char where "BSL \<equiv> CHR 0x5C"
abbreviation TAB :: char where "TAB \<equiv> CHR 0x09"
abbreviation SPC :: char where "SPC \<equiv> CHR 0x20"

text \<open>
  The loop of \<^verbatim>\<open>splitCommandTemplate\<close>: the arguments are the loop variables
  \<^verbatim>\<open>result\<close>, \<^verbatim>\<open>current\<close>, \<^verbatim>\<open>inSingleQuote\<close>, \<^verbatim>\<open>inDoubleQuote\<close> and
  the characters from index \<^verbatim>\<open>i\<close> on. \<^verbatim>\<open>cmdStr[i + 1]\<close> past the end is
  \<^verbatim>\<open>undefined\<close>, which equals neither quote nor backslash.
\<close>

fun split_loop ::
  "string list \<Rightarrow> string \<Rightarrow> bool \<Rightarrow> bool \<Rightarrow> string \<Rightarrow> string list \<times> string \<times> bool \<times> bool"
where
  "split_loop result current inS inD [] = (result, current, inS, inD)"
| "split_loop result current inS inD (ch # rest) =
     (if inS then
        (if ch = SQ then split_loop result current False inD rest
         else split_loop result (current @ [ch]) inS inD rest)
      else if inD then
        (if ch = DQ then split_loop result current inS False rest
         else if ch = BSL then
           (case rest of
              [] \<Rightarrow> split_loop result (current @ [ch]) inS inD rest
            | nxt # rest' \<Rightarrow>
                if nxt = DQ \<or> nxt = BSL then split_loop result (current @ [nxt]) inS inD rest'
                else split_loop result (current @ [ch]) inS inD rest)
         else split_loop result (current @ [ch]) inS inD rest)
      else
        (if ch = SQ then split_loop result current True inD rest
         else if ch = DQ then split_loop result current inS True rest
         else if ch = SPC \<or> ch = TAB then
           (if current \<noteq> [] then split_loop (result @ [current]) [] inS inD rest
            else split_loop result current inS inD rest)
         else split_loop result (current @ [ch]) inS inD rest))"

definition splitCommandTemplate :: "string \<Rightarrow> error + string list" where
  "splitCommandTemplate cmdStr =
     (case split_loop [] [] False False cmdStr of
        (result, current, inS, inD) \<Rightarrow>
          let result' = (if current \<noteq> [] then result @ [current] else result)
          in if inS \<or> inD then Inl (UnterminatedQuote cmdStr) else Inr result')"

subsection \<open>What the documentation of splitCommandTemplate says\<close>

text \<open>
  The reading of the function's doc comment, independent of its loop: a first pass
  classifies every character as a separator or as a literal character of a token and
  tracks the quoting mode; a second pass cuts the classified text at the separators and
  drops empty tokens. A quote is unterminated when the first pass ends inside a quote.
\<close>

datatype piece = Sep | Lit char

datatype qmode = Unquoted | InSingle | InDouble

fun classify :: "qmode \<Rightarrow> string \<Rightarrow> piece list \<times> qmode" where
  "classify m [] = ([], m)"
| "classify Unquoted (c # cs) =
     (if c = SQ then classify InSingle cs
      else if c = DQ then classify InDouble cs
      else if c = SPC \<or> c = TAB then (case classify Unquoted cs of (ps, m) \<Rightarrow> (Sep # ps, m))
      else (case classify Unquoted cs of (ps, m) \<Rightarrow> (Lit c # ps, m)))"
| "classify InSingle (c # cs) =
     (if c = SQ then classify Unquoted cs
      else (case classify InSingle cs of (ps, m) \<Rightarrow> (Lit c # ps, m)))"
| "classify InDouble (c # cs) =
     (if c = DQ then classify Unquoted cs
      else if c = BSL then
        (case cs of
           n # cs' \<Rightarrow>
             if n = DQ \<or> n = BSL then (case classify InDouble cs' of (ps, m) \<Rightarrow> (Lit n # ps, m))
             else (case classify InDouble cs of (ps, m) \<Rightarrow> (Lit BSL # ps, m))
         | [] \<Rightarrow> ([Lit BSL], InDouble))
      else (case classify InDouble cs of (ps, m) \<Rightarrow> (Lit c # ps, m)))"

fun cut_tokens :: "piece list \<Rightarrow> string list" where
  "cut_tokens [] = [[]]"
| "cut_tokens (Sep # ps) = [] # cut_tokens ps"
| "cut_tokens (Lit c # ps) =
     (case cut_tokens ps of [] \<Rightarrow> [[c]] | w # ws \<Rightarrow> (c # w) # ws)"

definition unterminated_quote :: "string \<Rightarrow> bool" where
  "unterminated_quote s = (snd (classify Unquoted s) \<noteq> Unquoted)"

definition documented_split :: "string \<Rightarrow> string list" where
  "documented_split s = filter (\<lambda>w. w \<noteq> []) (cut_tokens (fst (classify Unquoted s)))"

text \<open>Auxiliary functions of the refinement proof: the loop's accumulators run over
  classified text, and the quoting mode held by the loop's two flags.\<close>

fun feed :: "string list \<times> string \<Rightarrow> piece list \<Rightarrow> string list \<times> string" where
  "feed rc [] = rc"
| "feed (res, cur) (Sep # ps) = feed (if cur \<noteq> [] then res @ [cur] else res, []) ps"
| "feed (res, cur) (Lit c # ps) = feed (res, cur @ [c]) ps"

definition mode_of :: "bool \<Rightarrow> bool \<Rightarrow> qmode" where
  "mode_of inS inD = (if inS then InSingle else if inD then InDouble else Unquoted)"

section \<open>String and path primitives\<close>

text \<open>\<^verbatim>\<open>String.prototype.includes\<close>, \<^verbatim>\<open>trim\<close> and \<^verbatim>\<open>toLowerCase\<close> on the
  ASCII range, and \<^verbatim>\<open>Array.prototype.indexOf\<close>. Strings are taken to be ASCII: of the
  white space \<^verbatim>\<open>trim\<close> removes, the characters outside ASCII (U+00A0, U+FEFF, U+2028
  and the other Unicode spaces) are not modelled.\<close>

fun starts_with :: "string \<Rightarrow> string \<Rightarrow> bool" where
  "starts_with s [] = True"
| "starts_with [] (p # ps) = False"
| "starts_with (c # cs) (p # ps) = (c = p \<and> starts_with cs ps)"

fun str_includes :: "string \<Rightarrow> string \<Rightarrow> bool" where
  "str_includes [] pat = (pat = [])"
| "str_includes (c # cs) pat = (starts_with (c # cs) pat \<or> str_includes cs pat)"

definition is_ws :: "char \<Rightarrow> bool" where
  "is_ws c = (c = SPC \<or> c = TAB \<or> c = CHR 0x0A \<or> c = CHR 0x0B \<or> c = CHR 0x0C \<or> c = CHR 0x0D)"

definition trim :: "string \<Rightarrow> string" where
  "trim s = rev (dropWhile is_ws (rev (dropWhile is_ws s)))"

definition lower_char :: "char \<Rightarrow> char" where
  "lower_char c =
     (let n = of_char c :: nat in if 65 \<le> n \<and> n \<le> 90 then char_of (n + 32) else c)"

definition toLowerCase :: "string \<Rightarrow> string" where
  "toLowerCase s = map lower_char s"

fun indexOf :: "'a list \<Rightarrow> 'a \<Rightarrow> nat option" where
  "indexOf [] x = None"
| "indexOf (y # ys) x = (if y = x then Some 0 else map_option Suc (indexOf ys x))"

text \<open>\<^verbatim>\<open>arr.splice(i, 0, ...items)\<close> and \<^verbatim>\<open>arr.splice(i, n)\<close>; a start past the
  end is clamped to the length, as \<^const>\<open>take\<close> and \<^const>\<open>drop\<close> do.\<close>

definition splice_insert :: "nat \<Rightarrow> 'a list \<Rightarrow> 'a list \<Rightarrow> 'a list" where
  "splice_insert i items xs = take i xs @ items @ drop i xs"

definition splice_remove :: "nat \<Rightarrow> nat \<Rightarrow> 'a list \<Rightarrow> 'a list" where
  "splice_remove i n xs = take i xs @ drop (i + n) xs"

text \<open>
  \<^verbatim>\<open>part.replaceAll('{prompt}', fullPrompt)\<close>. The replacement is a string, so
  JavaScript expands the patterns \<^verbatim>\<open>$$\<close>, \<^verbatim>\<open>$&\<close>, \<^verbatim>\<open>$`\<close> and \<^verbatim>\<open>$'\<close> in it
  (there are no capture groups, so \<^verbatim>\<open>$1\<close> stays as written). \<open>expand\<close> is that
  expansion for one match: the matched text, the text before the match and the text
  after it. \<open>replace_from\<close> walks the part from left to right; \<open>seen\<close> is the text
  already passed.
\<close>

abbreviation DOLLAR :: char where "DOLLAR \<equiv> CHR 0x24"

fun expand :: "string \<Rightarrow> string \<Rightarrow> string \<Rightarrow> string \<Rightarrow> string" where
  "expand m b a [] = []"
| "expand m b a [c] = [c]"
| "expand m b a (c # d # rest) =
     (if c = DOLLAR then
        (if d = DOLLAR then DOLLAR # expand m b a rest
         else if d = CHR 0x26 then m @ expand m b a rest
         else if d = CHR 0x60 then b @ expand m b a rest
         else if d = SQ then a @ expand m b a rest
         else c # expand m b a (d # rest))
      else c # expand m b a (d # rest))"

definition PROMPT_MARKER :: string where
  "PROMPT_MARKER = ''{prompt}''"

fun replace_from :: "string \<Rightarrow> string \<Rightarrow> string \<Rightarrow> string" where
  "replace_from rep seen [] = []"
| "replace_from rep seen (c # cs) =
     (if starts_with (c # cs) PROMPT_MARKER then
        expand PROMPT_MARKER seen (drop 8 (c # cs)) rep
          @ replace_from rep (seen @ PROMPT_MARKER) (drop 7 cs)
      else c # replace_from rep (seen @ [c]) cs)"

definition replaceAll_prompt :: "string \<Rightarrow> string \<Rightarrow> string" where
  "replaceAll_prompt rep part = replace_from rep [] part"

text \<open>
  \<^verbatim>\<open>path.basename\<close> of Node.js, for both platforms: trailing separators are dropped
  and the text after the last remaining separator is returned; on Windows both slashes
  separate and a drive prefix \<^verbatim>\<open>C:\<close> is skipped first.
\<close>

definition is_sep :: "bool \<Rightarrow> char \<Rightarrow> bool" where
  "is_sep win32 c = (c = CHR 0x2F \<or> (win32 \<and> c = BSL))"

definition is_drive_letter :: "char \<Rightarrow> bool" where
  "is_drive_letter c =
     (let n = of_char c :: nat in (65 \<le> n \<and> n \<le> 90) \<or> (97 \<le> n \<and> n \<le> 122))"

definition strip_drive :: "bool \<Rightarrow> string \<Rightarrow> string" where
  "strip_drive win32 p =
     (case p of
        c # d # rest \<Rightarrow> if win32 \<and> is_drive_letter c \<and> d = CHR 0x3A then rest else p
      | _ \<Rightarrow> p)"

definition basename :: "bool \<Rightarrow> string \<Rightarrow> string" where
  "basename win32 p =
     rev (takeWhile (\<lambda>c. \<not> is_sep win32 c)
            (dropWhile (is_sep win32) (rev (strip_drive win32 p))))"

section \<open>JSON values, events and the JavaScript environment\<close>

text \<open>
  A parsed JSON value. An object is the list of its own properties, as \<^verbatim>\<open>JSON.parse\<close>
  builds it (each key once). Numbers are exact rationals: the code only compares them
  with constants and scales them.
\<close>

datatype json =
    JNull
  | JBool bool
  | JNum rat
  | JStr string
  | JArr "json list"
  | JObj "(string \<times> json) list"

text \<open>
  A normalized event, as far as the record reads it: \<^verbatim>\<open>type\<close>, \<^verbatim>\<open>status\<close>,
  \<^verbatim>\<open>content\<close> and \<^verbatim>\<open>timestamp\<close>. Times are milliseconds since the epoch; an ISO
  string written by \<^verbatim>\<open>toISOString\<close> and read back by \<^verbatim>\<open>new Date\<close> is the same
  instant, so both are the integer.
\<close>

record event =
  ev_type :: string
  ev_status :: "string option"
  ev_content :: "string option"
  ev_timestamp :: "int option"

text \<open>
  What the code takes from outside this file: the platform, the home directory's
  settings path, \<^verbatim>\<open>JSON.parse\<close> (\<open>None\<close> when it throws), \<^verbatim>\<open>normalizeEvents\<close> of
  \<^verbatim>\<open>parsers.js\<close> (\<open>None\<close> when it throws) and the date parsing of a string inside
  \<^verbatim>\<open>coerceDate\<close>. Every theorem below holds for all of them.
\<close>

record js_env =
  win32 :: bool
  settingsPath :: string
  JSON_parse :: "string \<Rightarrow> json option"
  normalizeEvents :: "agent_type \<Rightarrow> json \<Rightarrow> event list option"
  coerceDateString :: "string \<Rightarrow> int option"

section \<open>Command compiler\<close>

record agent_config =
  command :: string
  enabled :: bool
  model_fast :: string
  model_default :: string
  model_detailed :: string
  provider :: string

datatype EffortLevel = Fast | Default | Detailed

fun agent_type_name :: "agent_type \<Rightarrow> string" where
  "agent_type_name Codex = ''codex''"
| "agent_type_name Cursor = ''cursor''"
| "agent_type_name Gemini = ''gemini''"
| "agent_type_name Claude = ''claude''"
| "agent_type_name Opencode = ''opencode''"
| "agent_type_name Copilot = ''copilot''"

fun AGENT_COMMANDS :: "agent_type \<Rightarrow> string list" where
  "AGENT_COMMANDS Codex =
     [''codex'', ''exec'', ''--dangerously-bypass-approvals-and-sandbox'', ''{prompt}'', ''--json'']"
| "AGENT_COMMANDS Cursor =
     [''cursor-agent'', ''-p'', ''--output-format'', ''stream-json'', ''{prompt}'']"
| "AGENT_COMMANDS Gemini =
     [''gemini'', ''-p'', ''{prompt}'', ''--output-format'', ''stream-json'']"
| "AGENT_COMMANDS Claude =
     [''claude'', ''-p'', ''--verbose'', ''{prompt}'', ''--output-format'', ''stream-json'',
      ''--permission-mode'', ''plan'']"
| "AGENT_COMMANDS Opencode = [''opencode'', ''run'', ''--format'', ''json'', ''{prompt}'']"
| "AGENT_COMMANDS Copilot = [''copilot'', ''-p'', ''{prompt}'', ''-s'']"

definition quoted_prompt :: string where
  "quoted_prompt = SQ # ''{prompt}'' @ [SQ]"

fun loadDefaultAgentConfigs :: "agent_type \<Rightarrow> agent_config" where
  "loadDefaultAgentConfigs Claude =
     \<lparr>command = ''claude -p '' @ quoted_prompt @ '' --output-format stream-json'',
      enabled = True, model_fast = ''claude-haiku-4-5-20251001'',
      model_default = ''claude-sonnet-4-6'', model_detailed = ''claude-opus-4-6'',
      provider = ''anthropic''\<rparr>"
| "loadDefaultAgentConfigs Codex =
     \<lparr>command = ''codex exec --sandbox danger-full-access '' @ quoted_prompt @ '' --json'',
      enabled = True, model_fast = ''gpt-5.1-codex-mini'',
      model_default = ''gpt-5.3-codex'', model_detailed = ''gpt-5.3-codex'',
      provider = ''openai''\<rparr>"
| "loadDefaultAgentConfigs Gemini =
     \<lparr>command = ''gemini -p '' @ quoted_prompt @ '' --output-format stream-json'',
      enabled = True, model_fast = ''gemini-3-flash-preview'',
      model_default = ''gemini-3-flash-preview'', model_detailed = ''gemini-3-pro-preview'',
      provider = ''google''\<rparr>"
| "loadDefaultAgentConfigs Cursor =
     \<lparr>command = ''cursor-agent -p --output-format stream-json '' @ quoted_prompt,
      enabled = True, model_fast = ''composer-1'',
      model_default = ''composer-1'', model_detailed = ''composer-1'',
      provider = ''custom''\<rparr>"
| "loadDefaultAgentConfigs Opencode =
     \<lparr>command = ''opencode run --format json '' @ quoted_prompt,
      enabled = True, model_fast = ''zai-coding-plan/glm-4.7-flash'',
      model_default = ''zai-coding-plan/glm-4.7'', model_detailed = ''zai-coding-plan/glm-4.7'',
      provider = ''custom''\<rparr>"
| "loadDefaultAgentConfigs Copilot =
     \<lparr>command = ''copilot -p '' @ quoted_prompt @ '' -s'',
      enabled = True, model_fast = ''claude-sonnet-4'',
      model_default = ''claude-sonnet-4.5'', model_detailed = ''gpt-5'',
      provider = ''github''\<rparr>"

text \<open>\<^verbatim>\<open>resolveEffortModelMap(agentConfigs)\<close>, the one-argument form the manager uses.\<close>

fun resolveEffortModelMap ::
  "(agent_type \<Rightarrow> agent_config) \<Rightarrow> EffortLevel \<Rightarrow> agent_type \<Rightarrow> string"
where
  "resolveEffortModelMap cfg Fast t = model_fast (cfg t)"
| "resolveEffortModelMap cfg Default t = model_default (cfg t)"
| "resolveEffortModelMap cfg Detailed t = model_detailed (cfg t)"

abbreviation NL :: char where "NL \<equiv> CHR 0x0A"

definition PROMPT_SUFFIX :: string where
  "PROMPT_SUFFIX =
     [NL, NL] @ ''When you'' @ [SQ] @ ''re done, provide a brief summary of:'' @ [NL]
     @ ''1. What you did (1-2 sentences)'' @ [NL]
     @ ''2. Key files modified and why'' @ [NL]
     @ ''3. Any important classes, functions, or components you added/changed''"

definition CLAUDE_PLAN_MODE_PREFIX :: string where
  "CLAUDE_PLAN_MODE_PREFIX =
     ''You are running in HEADLESS PLAN MODE. This mode works like normal plan mode with one exception: you cannot write to ~/.claude/plans/ directory. Instead of writing a plan file, output your complete plan/response as your final message.''
     @ [NL, NL]"

text \<open>\<^verbatim>\<open>isCompatibleAgentCli(agentType, cmd[0])\<close>; the argument is the whole command,
  whose first element may be missing (\<^verbatim>\<open>undefined\<close>) or empty.\<close>

fun cli_names :: "agent_type \<Rightarrow> string list" where
  "cli_names Codex = [''codex'', ''codex.exe'']"
| "cli_names Claude = [''claude'', ''claude.exe'']"
| "cli_names Gemini = [''gemini'', ''gemini.exe'']"
| "cli_names Cursor = [''cursor-agent'', ''cursor-agent.exe'']"
| "cli_names Opencode = [''opencode'', ''opencode.exe'']"
| "cli_names Copilot = [''copilot'', ''copilot.exe'']"

definition isCompatibleAgentCli :: "bool \<Rightarrow> agent_type \<Rightarrow> string list \<Rightarrow> bool" where
  "isCompatibleAgentCli w32 agentType cmd =
     (case cmd of
        [] \<Rightarrow> False
      | firstArg # _ \<Rightarrow>
          if firstArg = [] then False
          else List.member (cli_names agentType) (toLowerCase (basename w32 firstArg)))"

definition ensureClaudeFlag :: "string list \<Rightarrow> string \<Rightarrow> string option \<Rightarrow> string list" where
  "ensureClaudeFlag cmd flag v =
     (if indexOf cmd flag \<noteq> None then cmd
      else case v of None \<Rightarrow> cmd @ [flag] | Some x \<Rightarrow> cmd @ [flag, x])"

definition ensureGeminiHeadlessFlag :: "string list \<Rightarrow> string \<Rightarrow> string list" where
  "ensureGeminiHeadlessFlag cmd promptText =
     (if List.member cmd ''-p'' \<or> List.member cmd ''--prompt'' then cmd
      else case indexOf cmd promptText of
             Some promptIdx \<Rightarrow> splice_insert promptIdx [''-p''] cmd
           | None \<Rightarrow> cmd @ [''-p''])"

fun applyEditMode :: "agent_type \<Rightarrow> string list \<Rightarrow> string list" where
  "applyEditMode Codex cmd = cmd @ [''--full-auto'']"
| "applyEditMode Cursor cmd = cmd @ [''-f'']"
| "applyEditMode Gemini cmd = cmd @ [''--yolo'']"
| "applyEditMode Claude cmd =
     (case indexOf cmd ''--permission-mode'' of
        Some permModeIndex \<Rightarrow>
          if permModeIndex + 1 < length cmd then cmd[permModeIndex + 1 := ''acceptEdits'']
          else cmd
      | None \<Rightarrow> cmd)"
| "applyEditMode Copilot cmd = cmd @ [''--allow-all-tools'', ''--allow-all-paths'', ''--no-ask-user'']"
| "applyEditMode Opencode cmd = cmd"

fun applyRalphMode :: "agent_type \<Rightarrow> string list \<Rightarrow> string list" where
  "applyRalphMode Codex cmd = cmd @ [''--full-auto'']"
| "applyRalphMode Cursor cmd = cmd @ [''-f'']"
| "applyRalphMode Gemini cmd = cmd @ [''--yolo'']"
| "applyRalphMode Claude cmd =
     (case indexOf cmd ''--permission-mode'' of
        Some permModeIndex \<Rightarrow> splice_remove permModeIndex 2 cmd
      | None \<Rightarrow> cmd) @ [''--dangerously-skip-permissions'']"
| "applyRalphMode Copilot cmd = cmd @ [''--yolo'']"
| "applyRalphMode Opencode cmd = cmd"

text \<open>The part of \<^verbatim>\<open>buildCommand\<close> after the compatibility check, in the order of the
  source: Claude's required flags, Gemini's headless and plan flags, the model flag, the
  mode flags.\<close>

definition claude_flags :: "js_env \<Rightarrow> string option \<Rightarrow> string list \<Rightarrow> string list" where
  "claude_flags env cwd cmd0 =
     (let cmd1 = ensureClaudeFlag cmd0 ''--verbose'' None;
          cmd2 = ensureClaudeFlag cmd1 ''--permission-mode'' (Some ''plan'');
          cmd3 = (if \<not> List.member cmd2 ''--settings'' then cmd2 @ [''--settings'', settingsPath env]
                  else cmd2)
      in case cwd of
           None \<Rightarrow> cmd3
         | Some d \<Rightarrow>
             if d \<noteq> [] \<and> \<not> List.member cmd3 ''--add-dir'' then cmd3 @ [''--add-dir'', d] else cmd3)"

definition gemini_flags :: "string \<Rightarrow> Mode \<Rightarrow> string list \<Rightarrow> string list" where
  "gemini_flags fullPrompt mode cmd0 =
     (let cmd1 = ensureGeminiHeadlessFlag cmd0 fullPrompt
      in if mode = Plan \<and> \<not> List.member cmd1 ''--approval-mode'' \<and> \<not> List.member cmd1 ''--yolo''
         then cmd1 @ [''--approval-mode'', ''plan''] else cmd1)"

definition model_flag :: "agent_type \<Rightarrow> string \<Rightarrow> Mode \<Rightarrow> string \<Rightarrow> string list \<Rightarrow> string list" where
  "model_flag agentType fullPrompt mode model cmd =
     (if List.member cmd ''--model'' then cmd
      else case agentType of
             Codex \<Rightarrow>
               (let insertIndex =
                      (case indexOf cmd ''--sandbox'' of
                         Some sandboxIndex \<Rightarrow> sandboxIndex
                       | None \<Rightarrow> (case indexOf cmd ''exec'' of Some execIndex \<Rightarrow> execIndex + 1 | None \<Rightarrow> 0))
                in splice_insert insertIndex [''--model'', model] cmd)
           | Cursor \<Rightarrow> cmd @ [''--model'', model]
           | Gemini \<Rightarrow> cmd @ [''--model'', model]
           | Claude \<Rightarrow> cmd @ [''--model'', model]
           | Opencode \<Rightarrow>
               (let opencodeAgent = (if mode = Edit \<or> mode = Ralph then ''build'' else ''plan'');
                    cmd1 = (case indexOf cmd fullPrompt of
                              Some promptIndex \<Rightarrow> splice_insert (promptIndex + 1) [''--agent'', opencodeAgent] cmd
                            | None \<Rightarrow> cmd)
                in cmd1 @ [''--model'', model])
           | Copilot \<Rightarrow> cmd @ [''--model'', model])"

definition inject_flags ::
  "js_env \<Rightarrow> agent_type \<Rightarrow> string \<Rightarrow> Mode \<Rightarrow> string \<Rightarrow> string option \<Rightarrow> string list \<Rightarrow> string list"
where
  "inject_flags env agentType fullPrompt mode model cwd cmd0 =
     (let cmd1 = (if agentType = Claude then claude_flags env cwd cmd0 else cmd0);
          cmd2 = (if agentType = Gemini then gemini_flags fullPrompt mode cmd1 else cmd1);
          cmd3 = model_flag agentType fullPrompt mode model cmd2
      in if mode = Ralph then applyRalphMode agentType cmd3
         else if mode = Edit then applyEditMode agentType cmd3
         else cmd3)"

definition full_prompt :: "agent_type \<Rightarrow> Mode \<Rightarrow> string \<Rightarrow> string" where
  "full_prompt agentType mode prompt =
     (if agentType = Claude \<and> mode \<noteq> Edit then CLAUDE_PLAN_MODE_PREFIX @ prompt @ PROMPT_SUFFIX
      else prompt @ PROMPT_SUFFIX)"

text \<open>
  \<^verbatim>\<open>buildCommand\<close>. \<open>agentConfigs\<close> is \<open>None\<close> while the manager has not been
  initialized (\<^verbatim>\<open>this.agentConfigs?.[agentType]?.command?.trim() ?? ''\<close>). The check
  \<^verbatim>\<open>if (!baseTemplate)\<close> cannot fire for one of the six agent kinds.
\<close>

definition buildCommand ::
  "js_env \<Rightarrow> (agent_type \<Rightarrow> agent_config) option \<Rightarrow> agent_type \<Rightarrow> string \<Rightarrow> Mode \<Rightarrow> string
     \<Rightarrow> string option \<Rightarrow> error + string list"
where
  "buildCommand env agentConfigs agentType prompt mode model cwd =
     (let fullPrompt = full_prompt agentType mode prompt;
          configAgentCommand =
            (case agentConfigs of None \<Rightarrow> [] | Some cfg \<Rightarrow> trim (command (cfg agentType)))
      in case (if configAgentCommand \<noteq> [] then splitCommandTemplate configAgentCommand
               else Inr (AGENT_COMMANDS agentType)) of
           Inl e \<Rightarrow> Inl e
         | Inr baseTemplate \<Rightarrow>
             if \<not> list_ex (\<lambda>part. str_includes part PROMPT_MARKER) baseTemplate
             then Inl (MissingPromptPlaceholder agentType)
             else
               let cmd = map (replaceAll_prompt fullPrompt) baseTemplate
               in if \<not> isCompatibleAgentCli (win32 env) agentType cmd then Inr cmd
                  else Inr (inject_flags env agentType fullPrompt mode model cwd cmd))"

text \<open>The messages of the two errors \<^verbatim>\<open>buildCommand\<close> can throw.\<close>

fun error_message :: "error \<Rightarrow> string option" where
  "error_message (MissingPromptPlaceholder agentType) =
     Some (''Agent config for '' @ [SQ] @ agent_type_name agentType @ [SQ]
       @ '' is missing the required {prompt} placeholder in its command. ''
       @ ''Config path: ~/.agents/swarm/config.json. ''
       @ ''Example fix: '' @ [DQ] @ ''my-cli run '' @ [SQ] @ ''{prompt}'' @ [SQ] @ '' --json'' @ [DQ])"
| "error_message (UnterminatedQuote cmdStr) =
     Some (''Unterminated quote in command template: '' @ cmdStr)"
| "error_message _ = None"

section \<open>Process records\<close>

text \<open>
  \<^verbatim>\<open>AgentProcess\<close>. The last four fields are the ones \<^verbatim>\<open>agents.d.ts\<close> declares
  for the resume chain; the constructor of \<^verbatim>\<open>agents.js\<close> does not set them, so a new
  record has them \<^verbatim>\<open>undefined\<close> (\<open>None\<close>) until a caller assigns them. All records
  live under one base directory.
\<close>

record AgentProcess =
  agentId :: string
  taskName :: string
  agentType :: agent_type
  prompt :: string
  cwd :: "string option"
  workspaceDir :: "string option"
  mode :: Mode
  pid :: "int option"
  status :: AgentStatus
  startedAt :: int
  completedAt :: "int option"
  parentSessionId :: "string option"
  eventsCache :: "event list"
  lastReadPos :: nat
  sessionId :: "string option"
  conversationTurn :: "nat option"
  originalAgentId :: "string option"
  replyAgentIds :: "string list option"

text \<open>The string enum \<^verbatim>\<open>AgentStatus\<close>: the value of each member, and the lookup
  \<^verbatim>\<open>AgentStatus[key]\<close> among the enum object's own keys, which are the upper-case
  member names only (a string enum has no reverse mapping). The keys the object inherits
  (\<^verbatim>\<open>constructor\<close>, \<^verbatim>\<open>toString\<close> and the like), for which the lookup gives a function
  and not a status, are not modelled.\<close>

fun status_value :: "AgentStatus \<Rightarrow> string" where
  "status_value RUNNING = ''running''"
| "status_value COMPLETED = ''completed''"
| "status_value FAILED = ''failed''"
| "status_value STOPPED = ''stopped''"

definition AgentStatus_index :: "string \<Rightarrow> AgentStatus option" where
  "AgentStatus_index k =
     (if k = ''RUNNING'' then Some RUNNING
      else if k = ''COMPLETED'' then Some COMPLETED
      else if k = ''FAILED'' then Some FAILED
      else if k = ''STOPPED'' then Some STOPPED
      else None)"

fun mode_value :: "Mode \<Rightarrow> string" where
  "mode_value Plan = ''plan''"
| "mode_value Edit = ''edit''"
| "mode_value Ralph = ''ralph''"

text \<open>The object \<^verbatim>\<open>saveMeta\<close> writes to \<^verbatim>\<open>meta.json\<close>, field by field.\<close>

record meta =
  m_agent_id :: string
  m_task_name :: string
  m_agent_type :: agent_type
  m_prompt :: string
  m_cwd :: "string option"
  m_workspace_dir :: "string option"
  m_mode :: string
  m_pid :: "int option"
  m_status :: string
  m_started_at :: int
  m_completed_at :: "int option"
  m_parent_session_id :: "string option"

record logfile =
  content :: string
  mtime :: int

record agent_dir =
  meta_json :: "meta option"
  stdout_log :: "logfile option"

text \<open>
  The world outside the process: the agent directories of the store in \<^verbatim>\<open>readdir\<close>
  order (\<open>meta_json = None\<close> is a missing or unparsable \<^verbatim>\<open>meta.json\<close>), which pids
  answer \<^verbatim>\<open>process.kill(pid, 0)\<close>, and the clock, both as they are during one
  operation. The two counters observe how often \<^verbatim>\<open>saveMeta\<close> wrote a meta file and
  how often \<^verbatim>\<open>loadExistingAgents\<close> listed the store.
\<close>

record world =
  disk :: "(string \<times> agent_dir) list"
  alive :: "int \<Rightarrow> bool"
  now :: int
  saveMeta_calls :: nat
  readdir_calls :: nat

definition or_null :: "string option \<Rightarrow> string option" where
  "or_null v = (case v of Some s \<Rightarrow> if s = [] then None else Some s | None \<Rightarrow> None)"

definition toMeta :: "AgentProcess \<Rightarrow> meta" where
  "toMeta a =
     \<lparr>m_agent_id = agentId a, m_task_name = taskName a, m_agent_type = agentType a,
      m_prompt = prompt a, m_cwd = cwd a, m_workspace_dir = workspaceDir a,
      m_mode = mode_value (mode a), m_pid = pid a, m_status = status_value (status a),
      m_started_at = startedAt a, m_completed_at = completedAt a,
      m_parent_session_id = parentSessionId a\<rparr>"

definition saveMeta :: "AgentProcess \<Rightarrow> world \<Rightarrow> world" where
  "saveMeta a w =
     (let d = (case map_of (disk w) (agentId a) of
                 Some d \<Rightarrow> d
               | None \<Rightarrow> \<lparr>meta_json = None, stdout_log = None\<rparr>)
      in w\<lparr>disk := AList.update (agentId a) (d\<lparr>meta_json := Some (toMeta a)\<rparr>) (disk w),
            saveMeta_calls := saveMeta_calls w + 1\<rparr>)"

definition fromMeta :: "meta \<Rightarrow> AgentProcess" where
  "fromMeta m =
     \<lparr>agentId = m_agent_id m,
      taskName = (if m_task_name m = [] then ''default'' else m_task_name m),
      agentType = m_agent_type m,
      prompt = m_prompt m,
      cwd = or_null (m_cwd m),
      workspaceDir = or_null (m_workspace_dir m),
      mode = (if m_mode m = ''edit'' then Edit else Plan),
      pid = (case m_pid m of Some p \<Rightarrow> if p = 0 then None else Some p | None \<Rightarrow> None),
      status = (case AgentStatus_index (m_status m) of Some st \<Rightarrow> st | None \<Rightarrow> RUNNING),
      startedAt = m_started_at m,
      completedAt = m_completed_at m,
      parentSessionId = or_null (m_parent_session_id m),
      eventsCache = [],
      lastReadPos = 0,
      sessionId = None,
      conversationTurn = None,
      originalAgentId = None,
      replyAgentIds = None\<rparr>"

definition loadFromDisk :: "world \<Rightarrow> string \<Rightarrow> AgentProcess option" where
  "loadFromDisk w agentId0 =
     (case map_of (disk w) agentId0 of
        None \<Rightarrow> None
      | Some d \<Rightarrow> (case meta_json d of None \<Rightarrow> None | Some m \<Rightarrow> Some (fromMeta m)))"

subsection \<open>Timestamps of raw events\<close>

definition date_of_ms :: "rat \<Rightarrow> int option" where
  "date_of_ms ms =
     (if \<bar>ms\<bar> \<le> 8640000000000000 then Some (if 0 \<le> ms then \<lfloor>ms\<rfloor> else \<lceil>ms\<rceil>) else None)"

text \<open>\<^verbatim>\<open>coerceDate\<close>; the argument is \<open>None\<close> for \<^verbatim>\<open>undefined\<close>. A number is an
  exact rational here, so the product with 1000 is exact, where the code multiplies
  doubles before \<^verbatim>\<open>Date\<close> truncates.\<close>

definition coerceDate :: "js_env \<Rightarrow> json option \<Rightarrow> int option" where
  "coerceDate env v =
     (case v of
        Some (JNum x) \<Rightarrow> date_of_ms (if x < 1000000000000 then x * 1000 else x)
      | Some (JStr str) \<Rightarrow> coerceDateString env str
      | _ \<Rightarrow> None)"

definition timestamp_keys :: "string list" where
  "timestamp_keys =
     [''timestamp'', ''time'', ''created_at'', ''createdAt'', ''ts'', ''started_at'', ''startedAt'']"

fun first_date :: "js_env \<Rightarrow> (string \<times> json) list \<Rightarrow> string list \<Rightarrow> int option" where
  "first_date env kv [] = None"
| "first_date env kv (k # ks) =
     (case coerceDate env (map_of kv k) of Some d \<Rightarrow> Some d | None \<Rightarrow> first_date env kv ks)"

definition extractTimestamp :: "js_env \<Rightarrow> json \<Rightarrow> int option" where
  "extractTimestamp env raw =
     (case raw of JObj kv \<Rightarrow> first_date env kv timestamp_keys | _ \<Rightarrow> None)"

subsection \<open>readNewEvents\<close>

fun split_nl :: "string \<Rightarrow> string list" where
  "split_nl [] = [[]]"
| "split_nl (c # cs) =
     (if c = NL then [] # split_nl cs
      else (case split_nl cs of [] \<Rightarrow> [[c]] | l # ls \<Rightarrow> (c # l) # ls))"

definition is_terminal_type :: "string \<Rightarrow> bool" where
  "is_terminal_type t = (t = ''result'' \<or> t = ''turn.completed'' \<or> t = ''thread.completed'')"

text \<open>The body of the loop over \<^verbatim>\<open>events\<close>: stamp the event, push it, and let a
  terminal event set the status.\<close>

definition push_event :: "int \<Rightarrow> int \<Rightarrow> AgentProcess \<Rightarrow> event \<Rightarrow> AgentProcess" where
  "push_event nw resolvedTimestamp a ev0 =
     (let ev = ev0\<lparr>ev_timestamp := Some resolvedTimestamp\<rparr>;
          a1 = a\<lparr>eventsCache := eventsCache a @ [ev]\<rparr>;
          stamp = (case ev_timestamp ev of Some t \<Rightarrow> t | None \<Rightarrow> nw)
      in if is_terminal_type (ev_type ev) then
           (if ev_status ev = Some ''success'' \<or> ev_type ev = ''turn.completed''
            then a1\<lparr>status := COMPLETED, completedAt := Some stamp\<rparr>
            else if ev_status ev = Some ''error''
            then a1\<lparr>status := FAILED, completedAt := Some stamp\<rparr>
            else a1)
         else a1)"

text \<open>The \<^verbatim>\<open>catch\<close> branch of a line: Gemini's console noise on Windows is dropped,
  Copilot's text becomes a message event, anything else a raw event.\<close>

definition unparsed_line :: "js_env \<Rightarrow> int \<Rightarrow> AgentProcess \<Rightarrow> string \<Rightarrow> AgentProcess" where
  "unparsed_line env fallbackTimestamp a line =
     (let isGeminiWin32Noise =
            (agentType a = Gemini \<and> win32 env \<and>
             (str_includes line ''AttachConsole failed'' \<or>
              str_includes line ''conpty_console_list_agent'' \<or>
              (str_includes line ''@lydell'' \<and> str_includes line ''node-pty'')))
      in if isGeminiWin32Noise then a
         else if agentType a = Copilot then
           a\<lparr>eventsCache := eventsCache a @
               [\<lparr>ev_type = ''message'', ev_status = None, ev_content = Some line,
                 ev_timestamp = Some fallbackTimestamp\<rparr>]\<rparr>
         else
           a\<lparr>eventsCache := eventsCache a @
               [\<lparr>ev_type = ''raw'', ev_status = None, ev_content = Some line,
                 ev_timestamp = Some fallbackTimestamp\<rparr>]\<rparr>)"

definition EXIT_KEY :: string where
  "EXIT_KEY = ''__exit_code__''"

text \<open>One iteration of the loop over the lines of the new content.\<close>

definition process_line :: "js_env \<Rightarrow> int \<Rightarrow> int \<Rightarrow> AgentProcess \<Rightarrow> string \<Rightarrow> AgentProcess" where
  "process_line env nw fallbackTimestamp a line =
     (case JSON_parse env line of
        None \<Rightarrow> unparsed_line env fallbackTimestamp a line
      | Some rawEvent \<Rightarrow>
          (case (case rawEvent of JObj kv \<Rightarrow> map_of kv EXIT_KEY | _ \<Rightarrow> None) of
             Some exitCode \<Rightarrow>
               a\<lparr>status := (if exitCode = JNum 0 then COMPLETED else FAILED),
                  completedAt := Some fallbackTimestamp\<rparr>
           | None \<Rightarrow>
               (case normalizeEvents env (agentType a) rawEvent of
                  None \<Rightarrow> unparsed_line env fallbackTimestamp a line
                | Some events \<Rightarrow>
                    let resolvedTimestamp =
                          (case extractTimestamp env rawEvent of
                             Some t \<Rightarrow> t
                           | None \<Rightarrow> fallbackTimestamp)
                    in foldl (push_event nw resolvedTimestamp) a events)))"

definition BUFFER_SIZE :: nat where
  "BUFFER_SIZE = 1024 * 1024"

definition new_lines :: "nat \<Rightarrow> logfile \<Rightarrow> string list" where
  "new_lines pos f =
     filter (\<lambda>l. l \<noteq> []) (map trim (split_nl (take BUFFER_SIZE (drop pos (content f)))))"

text \<open>
  \<^verbatim>\<open>readNewEvents\<close> on the record's log file (\<open>None\<close> when \<^verbatim>\<open>stat\<close> fails): at
  most one buffer of bytes from \<^verbatim>\<open>lastReadPos\<close> on is read; a character is a byte.
\<close>

definition readNewEvents :: "js_env \<Rightarrow> int \<Rightarrow> logfile option \<Rightarrow> AgentProcess \<Rightarrow> AgentProcess" where
  "readNewEvents env nw lg a =
     (case lg of
        None \<Rightarrow> a
      | Some f \<Rightarrow>
          let bytesRead = length (take BUFFER_SIZE (drop (lastReadPos a) (content f)))
          in if bytesRead = 0 then a
             else foldl (process_line env nw (mtime f))
                    (a\<lparr>lastReadPos := lastReadPos a + bytesRead\<rparr>)
                    (new_lines (lastReadPos a) f))"

definition log_of :: "world \<Rightarrow> AgentProcess \<Rightarrow> logfile option" where
  "log_of w a = (case map_of (disk w) (agentId a) of None \<Rightarrow> None | Some d \<Rightarrow> stdout_log d)"

subsection \<open>Reconciliation against the operating system\<close>

definition later_time :: "int option \<Rightarrow> event \<Rightarrow> int option" where
  "later_time latest ev =
     (case ev_timestamp ev of
        None \<Rightarrow> latest
      | Some parsed \<Rightarrow>
          (case latest of
             None \<Rightarrow> Some parsed
           | Some l \<Rightarrow> if parsed > l then Some parsed else latest))"

definition getLatestEventTime :: "AgentProcess \<Rightarrow> int option" where
  "getLatestEventTime a = foldl later_time None (eventsCache a)"

definition pid_set :: "int option \<Rightarrow> bool" where
  "pid_set p = (case p of Some n \<Rightarrow> n \<noteq> 0 | None \<Rightarrow> False)"

definition isProcessAlive :: "world \<Rightarrow> AgentProcess \<Rightarrow> bool" where
  "isProcessAlive w a = (case pid a of Some n \<Rightarrow> n \<noteq> 0 \<and> alive w n | None \<Rightarrow> False)"

definition reapProcess :: "world \<Rightarrow> AgentProcess \<Rightarrow> int option" where
  "reapProcess w a =
     (case pid a of
        Some n \<Rightarrow> if n = 0 then None else if alive w n then None else Some 1
      | None \<Rightarrow> None)"

text \<open>\<^verbatim>\<open>this.getLatestEventTime() || this.startedAt || new Date()\<close>: \<^verbatim>\<open>startedAt\<close> is a
  \<^verbatim>\<open>Date\<close> object, which is truthy, so the clock is never reached.\<close>

definition fallbackCompletion :: "AgentProcess \<Rightarrow> int" where
  "fallbackCompletion a = (case getLatestEventTime a of Some t \<Rightarrow> t | None \<Rightarrow> startedAt a)"

definition updateStatusFromProcess ::
  "js_env \<Rightarrow> AgentProcess \<Rightarrow> world \<Rightarrow> AgentProcess \<times> world"
where
  "updateStatusFromProcess env a w =
     (if \<not> pid_set (pid a) then (a, w)
      else if isProcessAlive w a then (readNewEvents env (now w) (log_of w a) a, w)
      else if status a = RUNNING then
        (let exitCode = reapProcess w a;
             a1 = readNewEvents env (now w) (log_of w a) a;
             a2 = (if status a1 = RUNNING then
                     a1\<lparr>status := (if exitCode \<noteq> None \<and> exitCode \<noteq> Some 0 then FAILED
                                    else COMPLETED),
                         completedAt := Some (fallbackCompletion a1)\<rparr>
                   else a1)
         in (a2, saveMeta a2 w))
      else if completedAt a = None then
        (let a1 = readNewEvents env (now w) (log_of w a) a;
             a2 = a1\<lparr>completedAt := Some (fallbackCompletion a1)\<rparr>
         in (a2, saveMeta a2 w))
      else (a, saveMeta a w))"

subsection \<open>The status query of cli.js\<close>

record agent_info =
  i_agent_id :: string
  i_task_name :: string
  i_agent_type :: agent_type
  i_status :: string
  i_started_at :: int
  i_completed_at :: "int option"

definition cli_isProcessAlive :: "world \<Rightarrow> int option \<Rightarrow> bool" where
  "cli_isProcessAlive w p = (case p of Some n \<Rightarrow> if n \<le> 0 then False else alive w n | None \<Rightarrow> False)"

text \<open>One directory entry of \<^verbatim>\<open>getTaskAgents\<close>; the formatted \<^verbatim>\<open>duration\<close> string is
  left out of the result.\<close>

definition task_agent :: "world \<Rightarrow> string \<Rightarrow> agent_dir \<Rightarrow> agent_info list" where
  "task_agent w task d =
     (case meta_json d of
        None \<Rightarrow> []
      | Some m \<Rightarrow>
          if m_task_name m \<noteq> task then []
          else
            let effectiveStatus =
                  (if m_status m = ''running'' \<and> pid_set (m_pid m) \<and> \<not> cli_isProcessAlive w (m_pid m)
                   then ''completed'' else m_status m)
            in [\<lparr>i_agent_id = m_agent_id m, i_task_name = m_task_name m,
                  i_agent_type = m_agent_type m, i_status = effectiveStatus,
                  i_started_at = m_started_at m, i_completed_at = m_completed_at m\<rparr>])"

definition getTaskAgents :: "world \<Rightarrow> string \<Rightarrow> agent_info list" where
  "getTaskAgents w task = concat (map (\<lambda>(entry, d). task_agent w task d) (disk w))"

section \<open>The lifecycle manager\<close>

text \<open>
  \<^verbatim>\<open>AgentManager\<close>. The \<^verbatim>\<open>Map\<close> of records is an association list in insertion
  order; the records are the objects themselves, so an operation that mutates a record
  updates it in the list.
\<close>

record AgentManager =
  agents :: "(string \<times> AgentProcess) list"
  maxAgents :: int
  maxConcurrent :: int
  filterByCwd :: "string option"
  cleanupAgeDays :: int
  defaultMode :: Mode
  effortModelMap :: "(EffortLevel \<Rightarrow> agent_type \<Rightarrow> string) option"
  agentConfigs :: "(agent_type \<Rightarrow> agent_config) option"
  constructorAgentConfigs :: "(agent_type \<Rightarrow> agent_config) option"

text \<open>One iteration of the loop of \<^verbatim>\<open>loadExistingAgents\<close> over the directory
  entries (every entry of the store is a directory; \<^verbatim>\<open>fs.rm\<close> succeeds).\<close>

definition load_entry ::
  "js_env \<Rightarrow> int \<Rightarrow> AgentManager \<times> world \<Rightarrow> string \<Rightarrow> AgentManager \<times> world"
where
  "load_entry env cutoffDate s entry =
     (case s of (m, w) \<Rightarrow>
        (case loadFromDisk w entry of
           None \<Rightarrow> (m, w)
         | Some agent \<Rightarrow>
             if (case completedAt agent of Some c \<Rightarrow> c < cutoffDate | None \<Rightarrow> False)
             then (m, w\<lparr>disk := AList.delete entry (disk w)\<rparr>)
             else if (case filterByCwd m of Some f \<Rightarrow> cwd agent \<noteq> Some f | None \<Rightarrow> False)
             then (m, w)
             else
               (case updateStatusFromProcess env agent w of
                  (agent', w') \<Rightarrow> (m\<lparr>agents := AList.update entry agent' (agents m)\<rparr>, w'))))"

definition loadExistingAgents :: "js_env \<Rightarrow> AgentManager \<times> world \<Rightarrow> AgentManager \<times> world" where
  "loadExistingAgents env s =
     (case s of (m, w) \<Rightarrow>
        let cutoffDate = now w - cleanupAgeDays m * 24 * 60 * 60 * 1000;
            entries = map fst (disk w)
        in foldl (load_entry env cutoffDate) (m, w\<lparr>readdir_calls := readdir_calls w + 1\<rparr>) entries)"

definition initialize :: "js_env \<Rightarrow> AgentManager \<times> world \<Rightarrow> AgentManager \<times> world" where
  "initialize env s =
     (case s of (m, w) \<Rightarrow>
        let cfg = (case constructorAgentConfigs m of
                     None \<Rightarrow> loadDefaultAgentConfigs
                   | Some c \<Rightarrow> c)
        in loadExistingAgents env
             (m\<lparr>agentConfigs := Some cfg, effortModelMap := Some (resolveEffortModelMap cfg)\<rparr>, w))"

text \<open>The constructor; its call of \<^verbatim>\<open>initialize\<close> has finished before the next
  operation starts. The default mode is given resolved.\<close>

definition new_AgentManager ::
  "js_env \<Rightarrow> int \<Rightarrow> int \<Rightarrow> Mode \<Rightarrow> string option \<Rightarrow> int \<Rightarrow> (agent_type \<Rightarrow> agent_config) option
     \<Rightarrow> world \<Rightarrow> AgentManager \<times> world"
where
  "new_AgentManager env maxAgents0 maxConcurrent0 defaultMode0 filterByCwd0 cleanupAgeDays0
       agentConfigs0 w =
     initialize env
       (\<lparr>agents = [], maxAgents = maxAgents0, maxConcurrent = maxConcurrent0,
         filterByCwd = filterByCwd0, cleanupAgeDays = cleanupAgeDays0,
         defaultMode = defaultMode0, effortModelMap = None, agentConfigs = None,
         constructorAgentConfigs = agentConfigs0\<rparr>, w)"

text \<open>\<^verbatim>\<open>await agent.readNewEvents(); await agent.updateStatusFromProcess()\<close>, the
  reconciliation of one record that every listing does.\<close>

definition refresh :: "js_env \<Rightarrow> AgentProcess \<Rightarrow> world \<Rightarrow> AgentProcess \<times> world" where
  "refresh env a w = updateStatusFromProcess env (readNewEvents env (now w) (log_of w a) a) w"

fun refresh_all ::
  "js_env \<Rightarrow> (string \<times> AgentProcess) list \<Rightarrow> world \<Rightarrow> (string \<times> AgentProcess) list \<times> world"
where
  "refresh_all env [] w = ([], w)"
| "refresh_all env ((k, a) # rest) w =
     (case refresh env a w of
        (a', w1) \<Rightarrow> (case refresh_all env rest w1 of (rest', w2) \<Rightarrow> ((k, a') # rest', w2)))"

definition listAll ::
  "js_env \<Rightarrow> AgentManager \<times> world \<Rightarrow> AgentProcess list \<times> AgentManager \<times> world"
where
  "listAll env s =
     (case s of (m, w) \<Rightarrow>
        (case refresh_all env (agents m) w of
           (ags, w') \<Rightarrow> (map snd ags, m\<lparr>agents := ags\<rparr>, w')))"

definition listRunning ::
  "js_env \<Rightarrow> AgentManager \<times> world \<Rightarrow> AgentProcess list \<times> AgentManager \<times> world"
where
  "listRunning env s =
     (case listAll env s of (all, s') \<Rightarrow> (filter (\<lambda>a. status a = RUNNING) all, s'))"

definition listCompleted ::
  "js_env \<Rightarrow> AgentManager \<times> world \<Rightarrow> AgentProcess list \<times> AgentManager \<times> world"
where
  "listCompleted env s =
     (case listAll env s of (all, s') \<Rightarrow> (filter (\<lambda>a. status a \<noteq> RUNNING) all, s'))"

definition remove_agent :: "AgentManager \<times> world \<Rightarrow> AgentProcess \<Rightarrow> AgentManager \<times> world" where
  "remove_agent s a =
     (case s of (m, w) \<Rightarrow>
        (m\<lparr>agents := AList.delete (agentId a) (agents m)\<rparr>,
         w\<lparr>disk := AList.delete (agentId a) (disk w)\<rparr>))"

definition cleanupOldAgents :: "js_env \<Rightarrow> AgentManager \<times> world \<Rightarrow> AgentManager \<times> world" where
  "cleanupOldAgents env s =
     (case listCompleted env s of
        (completed, s') \<Rightarrow>
          if int (length completed) > maxAgents (fst s') then
            let sorted = sort_key (\<lambda>a. case completedAt a of Some t \<Rightarrow> t | None \<Rightarrow> 0) completed
            in foldl remove_agent s' (take (nat (int (length completed) - maxAgents (fst s'))) sorted)
          else s')"

text \<open>
  What the operating system answers during one \<^verbatim>\<open>spawn\<close>: where the executable is
  (\<^verbatim>\<open>findExecutableOnPath\<close>), \<^verbatim>\<open>path.resolve\<close>, \<^verbatim>\<open>fs.stat\<close> of the working
  directory (\<open>Some True\<close> for a directory), the random id, whether \<^verbatim>\<open>fs.mkdir\<close> of
  the agent directory fails, and the launch of the child (its pid, or the thrown
  message).
\<close>

record spawn_os =
  findExecutableOnPath :: "string \<Rightarrow> string option"
  path_resolve :: "string \<Rightarrow> string"
  stat_isDirectory :: "string \<Rightarrow> bool option"
  randomUUID8 :: string
  mkdir_error :: "string option"
  launch :: "string list \<Rightarrow> string + int option"

definition checkCliAvailable :: "spawn_os \<Rightarrow> agent_type \<Rightarrow> error + string" where
  "checkCliAvailable os agentType0 =
     (case AGENT_COMMANDS agentType0 of
        [] \<Rightarrow> Inl (CliNotAvailable [])
      | executable # _ \<Rightarrow>
          (case findExecutableOnPath os executable of
             Some resolvedPath \<Rightarrow> Inr resolvedPath
           | None \<Rightarrow> Inl (CliNotAvailable executable)))"

definition resolve_cwd :: "spawn_os \<Rightarrow> string option \<Rightarrow> error + string option" where
  "resolve_cwd os cwd0 =
     (case cwd0 of
        None \<Rightarrow> Inr None
      | Some c \<Rightarrow>
          (case stat_isDirectory os (path_resolve os c) of
             None \<Rightarrow> Inl (CwdDoesNotExist c)
           | Some isDir \<Rightarrow> if isDir then Inr (Some (path_resolve os c)) else Inl (CwdNotDirectory c)))"

definition new_AgentProcess ::
  "string \<Rightarrow> string \<Rightarrow> agent_type \<Rightarrow> string \<Rightarrow> string option \<Rightarrow> Mode \<Rightarrow> int \<Rightarrow> string option
     \<Rightarrow> string option \<Rightarrow> AgentProcess"
where
  "new_AgentProcess agentId0 taskName0 agentType0 prompt0 cwd0 mode0 startedAt0 parentSessionId0
       workspaceDir0 =
     \<lparr>agentId = agentId0, taskName = taskName0, agentType = agentType0, prompt = prompt0,
      cwd = cwd0, workspaceDir = workspaceDir0, mode = mode0, pid = None, status = RUNNING,
      startedAt = startedAt0, completedAt = None, parentSessionId = parentSessionId0,
      eventsCache = [], lastReadPos = 0, sessionId = None, conversationTurn = None,
      originalAgentId = None, replyAgentIds = None\<rparr>"

text \<open>The agent directory is made (\<^verbatim>\<open>mkdir\<close>, recursive); on POSIX the log file is
  opened for writing, which creates or truncates it.\<close>

definition make_agent_dir :: "js_env \<Rightarrow> string \<Rightarrow> world \<Rightarrow> world" where
  "make_agent_dir env agentId0 w =
     (let d = (case map_of (disk w) agentId0 of
                 Some d \<Rightarrow> d
               | None \<Rightarrow> \<lparr>meta_json = None, stdout_log = None\<rparr>);
          d' = (if win32 env then d else d\<lparr>stdout_log := Some \<lparr>content = [], mtime = now w\<rparr>\<rparr>)
      in w\<lparr>disk := AList.update agentId0 d' (disk w)\<rparr>)"

text \<open>
  \<^verbatim>\<open>spawn\<close> returns the record object after \<^verbatim>\<open>cleanupOldAgents\<close> has run, and
  the listing inside \<^verbatim>\<open>cleanupOldAgents\<close> refreshes every record of the manager in
  place: the caller sees the record as that listing left it.
\<close>

definition refreshed_record :: "js_env \<Rightarrow> AgentManager \<times> world \<Rightarrow> AgentProcess \<Rightarrow> AgentProcess" where
  "refreshed_record env s a =
     (case map_of (agents (fst (snd (listCompleted env s)))) (agentId a) of
        Some a' \<Rightarrow> a'
      | None \<Rightarrow> a)"

text \<open>The part of \<^verbatim>\<open>spawn\<close> after the concurrency check.\<close>

definition launch_agent ::
  "js_env \<Rightarrow> spawn_os \<Rightarrow> string \<Rightarrow> agent_type \<Rightarrow> string \<Rightarrow> string option \<Rightarrow> Mode \<Rightarrow> string
     \<Rightarrow> string option \<Rightarrow> string option \<Rightarrow> AgentManager \<times> world
     \<Rightarrow> (error + AgentProcess) \<times> AgentManager \<times> world"
where
  "launch_agent env os taskName0 agentType0 prompt0 cwd0 resolvedMode resolvedModel
       parentSessionId0 workspaceDir0 s =
     (case s of (m, w) \<Rightarrow>
        (case checkCliAvailable os agentType0 of
           Inl e \<Rightarrow> (Inl e, s)
         | Inr _ \<Rightarrow>
             (case resolve_cwd os cwd0 of
                Inl e \<Rightarrow> (Inl e, s)
              | Inr resolvedCwd \<Rightarrow>
                  (case buildCommand env (agentConfigs m) agentType0 prompt0 resolvedMode
                          resolvedModel resolvedCwd of
                     Inl e \<Rightarrow> (Inl e, s)
                   | Inr cmd \<Rightarrow>
                       let agent = new_AgentProcess (randomUUID8 os) taskName0 agentType0 prompt0
                                     resolvedCwd resolvedMode (now w) parentSessionId0 workspaceDir0
                       in (case mkdir_error os of
                             Some msg \<Rightarrow>
                               (Inl (CreateDirFailed msg),
                                m\<lparr>agents := AList.delete (agentId agent) (agents m)\<rparr>, w)
                           | None \<Rightarrow>
                               (case launch os cmd of
                                  Inl msg \<Rightarrow>
                                    (Inl (SpawnFailed msg),
                                     remove_agent (m, make_agent_dir env (agentId agent) w) agent)
                                | Inr childPid \<Rightarrow>
                                    let agent' = agent\<lparr>pid := (if pid_set childPid then childPid else None)\<rparr>;
                                        w1 = saveMeta agent' (make_agent_dir env (agentId agent) w);
                                        m1 = m\<lparr>agents := AList.update (agentId agent) agent' (agents m)\<rparr>
                                    in (Inr (refreshed_record env (m1, w1) agent'),
                                        cleanupOldAgents env (m1, w1))))))))"

text \<open>\<^verbatim>\<open>spawn\<close>. The mode and the effort level are typed, so \<^verbatim>\<open>resolveMode\<close> cannot
  throw; an empty or blank \<^verbatim>\<open>model\<close> falls back to the effort map.\<close>

definition spawn ::
  "js_env \<Rightarrow> spawn_os \<Rightarrow> string \<Rightarrow> agent_type \<Rightarrow> string \<Rightarrow> string option \<Rightarrow> Mode option
     \<Rightarrow> EffortLevel \<Rightarrow> string option \<Rightarrow> string option \<Rightarrow> string option \<Rightarrow> AgentManager \<times> world
     \<Rightarrow> (error + AgentProcess) \<times> AgentManager \<times> world"
where
  "spawn env os taskName0 agentType0 prompt0 cwd0 mode0 effort parentSessionId0 workspaceDir0
       model0 s =
     (let s1 = initialize env s;
          resolvedMode = (case mode0 of Some md \<Rightarrow> md | None \<Rightarrow> defaultMode (fst s1));
          fromEffort = (case effortModelMap (fst s1) of Some f \<Rightarrow> f effort agentType0 | None \<Rightarrow> []);
          resolvedModel = (case model0 of
                             Some x \<Rightarrow> if trim x \<noteq> [] then trim x else fromEffort
                           | None \<Rightarrow> fromEffort)
      in case listRunning env s1 of
           (running, s2) \<Rightarrow>
             if int (length running) \<ge> maxConcurrent (fst s2)
             then (Inl (ConcurrencyLimit (maxConcurrent (fst s2))), s2)
             else launch_agent env os taskName0 agentType0 prompt0 cwd0 resolvedMode resolvedModel
                    parentSessionId0 workspaceDir0 s2)"

definition get_agent ::
  "js_env \<Rightarrow> string \<Rightarrow> AgentManager \<times> world \<Rightarrow> AgentProcess option \<times> AgentManager \<times> world"
where
  "get_agent env agentId0 s =
     (case initialize env s of (m, w) \<Rightarrow>
        (case (case map_of (agents m) agentId0 of
                 Some a \<Rightarrow> Some a
               | None \<Rightarrow> loadFromDisk w agentId0) of
           None \<Rightarrow> (None, m, w)
         | Some a \<Rightarrow>
             (case refresh env a w of
                (a', w') \<Rightarrow> (Some a', m\<lparr>agents := AList.update agentId0 a' (agents m)\<rparr>, w'))))"

text \<open>The body of \<^verbatim>\<open>stop\<close> on the record it found; signalling the process group
  changes nothing the manager holds.\<close>

definition stop_agent :: "AgentProcess \<Rightarrow> world \<Rightarrow> bool \<times> AgentProcess \<times> world" where
  "stop_agent a w =
     (if pid_set (pid a) \<and> status a = RUNNING then
        (let a' = a\<lparr>status := STOPPED, completedAt := Some (now w)\<rparr>
         in (True, a', saveMeta a' w))
      else (False, a, w))"

definition stop :: "js_env \<Rightarrow> string \<Rightarrow> AgentManager \<times> world \<Rightarrow> bool \<times> AgentManager \<times> world" where
  "stop env agentId0 s =
     (case initialize env s of (m, w) \<Rightarrow>
        (case map_of (agents m) agentId0 of
           None \<Rightarrow> (False, m, w)
         | Some a \<Rightarrow>
             (case stop_agent a w of
                (r, a', w') \<Rightarrow> (r, m\<lparr>agents := AList.update agentId0 a' (agents m)\<rparr>, w'))))"

section \<open>Predicates of the theorems\<close>

text \<open>What no operation on a record changes.\<close>

definition same_identity :: "AgentProcess \<Rightarrow> AgentProcess \<Rightarrow> bool" where
  "same_identity a b =
     (agentId b = agentId a \<and> pid b = pid a \<and> startedAt b = startedAt a \<and>
      agentType b = agentType a \<and> taskName b = taskName a)"

text \<open>
  One step of a record, from \<open>a\<close> to \<open>b\<close>, that goes forward: a record found running
  afterwards was running before and has the completion time it had; a record that has left
  running in the step has a completion time; a completion time is never taken away.
\<close>

definition forward_step :: "AgentProcess \<Rightarrow> AgentProcess \<Rightarrow> bool" where
  "forward_step a b =
     ((status b = RUNNING \<longrightarrow> status a = RUNNING \<and> completedAt b = completedAt a) \<and>
      (status a = RUNNING \<and> status b \<noteq> RUNNING \<longrightarrow> completedAt b \<noteq> None) \<and>
      (completedAt a \<noteq> None \<longrightarrow> completedAt b \<noteq> None))"

text \<open>
  The records \<^verbatim>\<open>spawn\<close> counts: it reloads the store (\<^verbatim>\<open>initialize\<close>), reconciles
  every record the manager then holds (\<^verbatim>\<open>listAll\<close>), and takes those whose status is
  running.
\<close>

definition reconciled :: "js_env \<Rightarrow> AgentManager \<times> world \<Rightarrow> AgentProcess list" where
  "reconciled env s = fst (listAll env (initialize env s))"

definition running_count :: "js_env \<Rightarrow> AgentManager \<times> world \<Rightarrow> nat" where
  "running_count env s = length (filter (\<lambda>a. status a = RUNNING) (reconciled env s))"

text \<open>
  The lines on which the loop of \<^verbatim>\<open>readNewEvents\<close> assigns \<^verbatim>\<open>status\<close>: a
  sentinel line, or a line among whose normalized events one is a terminal event that the
  loop acts on.
\<close>

definition assigns_status :: "event \<Rightarrow> bool" where
  "assigns_status ev =
     (is_terminal_type (ev_type ev) \<and>
      (ev_status ev = Some ''success'' \<or> ev_type ev = ''turn.completed'' \<or>
       ev_status ev = Some ''error''))"

definition sets_status :: "js_env \<Rightarrow> agent_type \<Rightarrow> string \<Rightarrow> bool" where
  "sets_status env t line =
     (case JSON_parse env line of
        None \<Rightarrow> False
      | Some rawEvent \<Rightarrow>
          (case (case rawEvent of JObj kv \<Rightarrow> map_of kv EXIT_KEY | _ \<Rightarrow> None) of
             Some exitCode \<Rightarrow> True
           | None \<Rightarrow>
               (case normalizeEvents env t rawEvent of
                  None \<Rightarrow> False
                | Some events \<Rightarrow> list_ex assigns_status events)))"

text \<open>The names under which a state knows records: the directories of the store, the
  \<^verbatim>\<open>agent_id\<close> inside each meta file, and the ids of the records in memory.\<close>

fun dir_ids :: "string \<times> agent_dir \<Rightarrow> string list" where
  "dir_ids (k, d) = k # (case meta_json d of None \<Rightarrow> [] | Some m \<Rightarrow> [m_agent_id m])"

definition disk_ids :: "world \<Rightarrow> string set" where
  "disk_ids w = set (concat (map dir_ids (disk w)))"

definition memory_ids :: "AgentManager \<Rightarrow> string set" where
  "memory_ids m = set (map (\<lambda>(k, a). agentId a) (agents m))"

definition known_ids :: "AgentManager \<times> world \<Rightarrow> string set" where
  "known_ids s = disk_ids (snd s) \<union> memory_ids (fst s)"

text \<open>Two worlds with the same processes, clock and count of directory listings.\<close>

definition same_os :: "world \<Rightarrow> world \<Rightarrow> bool" where
  "same_os w w' = (alive w' = alive w \<and> now w' = now w \<and> readdir_calls w' = readdir_calls w)"

section \<open>Sample data\<close>

text \<open>
  Concrete inputs for the examples below. \<open>sample_JSON_parse\<close> agrees with
  \<^verbatim>\<open>JSON.parse\<close> on the lines the examples contain: the two sentinel lines parse to
  their objects and the plain-text lines do not parse. No example reaches
  \<^verbatim>\<open>normalizeEvents\<close> or the date parsing.
\<close>

definition sentinel_line :: "string \<Rightarrow> string" where
  "sentinel_line digits = ''{'' @ [DQ] @ ''__exit_code__'' @ [DQ] @ '':'' @ digits @ ''}''"

definition sample_JSON_parse :: "string \<Rightarrow> json option" where
  "sample_JSON_parse line =
     (if line = sentinel_line ''0'' then Some (JObj [(EXIT_KEY, JNum 0)])
      else if line = sentinel_line ''3'' then Some (JObj [(EXIT_KEY, JNum 3)])
      else None)"

definition sample_env :: js_env where
  "sample_env =
     \<lparr>win32 = False, settingsPath = ''/home/user/.claude/settings.json'',
      JSON_parse = sample_JSON_parse,
      normalizeEvents = (\<lambda>t raw. Some []),
      coerceDateString = (\<lambda>str. None)\<rparr>"

definition sample_agent :: AgentProcess where
  "sample_agent =
     (new_AgentProcess ''agent-1'' ''task-1'' Codex ''Test prompt'' None Plan 1000 None None)
       \<lparr>pid := Some 999999\<rparr>"

definition sample_log :: logfile where
  "sample_log = \<lparr>content = ''plain text line without json'' @ [NL], mtime = 5000\<rparr>"

definition sample_world :: world where
  "sample_world =
     \<lparr>disk = [(''agent-1'', \<lparr>meta_json = None, stdout_log = Some sample_log\<rparr>)],
      alive = (\<lambda>p. False), now = 9000, saveMeta_calls = 0, readdir_calls = 0\<rparr>"

definition sentinel_log :: "string \<Rightarrow> logfile" where
  "sentinel_log digits =
     \<lparr>content = ''some output'' @ [NL] @ sentinel_line digits @ [NL], mtime = 12000\<rparr>"

text \<open>The sample log after the sentinel line has been appended to it.\<close>

definition grown_log :: logfile where
  "grown_log = \<lparr>content = content sample_log @ sentinel_line ''0'' @ [NL], mtime = 12000\<rparr>"

text \<open>
  A log longer than one read buffer, whose sentinel line begins five bytes before the
  end of the first buffer; and a log with a line of output after the sentinel; and a log
  that holds two sentinel lines.
\<close>

definition filler :: string where
  "filler = replicate (BUFFER_SIZE - 6) (CHR ''x'')"

definition long_log :: logfile where
  "long_log = \<lparr>content = filler @ [NL] @ sentinel_line ''0'' @ [NL], mtime = 12000\<rparr>"

definition trailing_log :: logfile where
  "trailing_log =
     \<lparr>content = ''some output'' @ [NL] @ sentinel_line ''3'' @ [NL] @ ''Done.'' @ [NL],
      mtime = 12000\<rparr>"

definition two_sentinel_log :: logfile where
  "two_sentinel_log =
     \<lparr>content = sentinel_line ''3'' @ [NL] @ sentinel_line ''0'' @ [NL], mtime = 12000\<rparr>"

text \<open>Three configurations that override Codex's command: one without the prompt
  marker, one for another executable, and one with a quote that is never closed.\<close>

definition config_with :: "string \<Rightarrow> agent_type \<Rightarrow> agent_config" where
  "config_with c = loadDefaultAgentConfigs(Codex := (loadDefaultAgentConfigs Codex)\<lparr>command := c\<rparr>)"

definition no_marker_command :: string where
  "no_marker_command = ''gh copilot suggest --output json''"

definition custom_command :: string where
  "custom_command = ''gh copilot suggest '' @ quoted_prompt @ '' --output json''"

definition unterminated_command :: string where
  "unterminated_command = ''my-cli run '' @ [SQ] @ ''task''"

text \<open>A store with one record whose process (pid 4242) is alive, a new manager with a
  given concurrency ceiling, and an operating system on which a launch succeeds with a
  child of pid 5151, alive from then on.\<close>

definition live_agent :: AgentProcess where
  "live_agent = sample_agent\<lparr>pid := Some 4242\<rparr>"

definition busy_world :: world where
  "busy_world =
     \<lparr>disk = [(''agent-1'', \<lparr>meta_json = Some (toMeta live_agent), stdout_log = None\<rparr>)],
      alive = (\<lambda>p. p = 4242 \<or> p = 5151), now = 9000, saveMeta_calls = 0, readdir_calls = 0\<rparr>"

definition manager_with :: "int \<Rightarrow> AgentManager" where
  "manager_with n =
     \<lparr>agents = [], maxAgents = 50, maxConcurrent = n, filterByCwd = None, cleanupAgeDays = 7,
      defaultMode = Plan, effortModelMap = None, agentConfigs = None,
      constructorAgentConfigs = None\<rparr>"

text \<open>
  Three more stores of one record each: a record without a pid that was saved as
  completed (as the repository's tests write one), a record that was stopped, whose
  process is gone, and a record with a live process beside which the manager holds a
  record that has no directory in the store.
\<close>

definition idle_agent :: AgentProcess where
  "idle_agent =
     (new_AgentProcess ''agent-1'' ''task-1'' Codex ''Test prompt'' None Plan 1000 None None)
       \<lparr>status := COMPLETED, completedAt := Some 2000\<rparr>"

definition idle_world :: world where
  "idle_world =
     \<lparr>disk = [(''agent-1'', \<lparr>meta_json = Some (toMeta idle_agent), stdout_log = None\<rparr>)],
      alive = (\<lambda>p. False), now = 9000, saveMeta_calls = 0, readdir_calls = 0\<rparr>"

definition stopped_agent :: AgentProcess where
  "stopped_agent = sample_agent\<lparr>status := STOPPED, completedAt := Some 8000\<rparr>"

definition stopped_world :: world where
  "stopped_world =
     \<lparr>disk = [(''agent-1'', \<lparr>meta_json = Some (toMeta stopped_agent), stdout_log = None\<rparr>)],
      alive = (\<lambda>p. False), now = 9000, saveMeta_calls = 0, readdir_calls = 0\<rparr>"

definition ghost_agent :: AgentProcess where
  "ghost_agent = sample_agent\<lparr>agentId := ''ghost''\<rparr>"

definition holding :: "int \<Rightarrow> AgentProcess \<Rightarrow> AgentManager" where
  "holding n a = (manager_with n)\<lparr>agents := [(agentId a, a)]\<rparr>"

definition sample_os :: spawn_os where
  "sample_os =
     \<lparr>findExecutableOnPath = (\<lambda>x. Some (''/usr/bin/'' @ x)), path_resolve = (\<lambda>p. p),
      stat_isDirectory = (\<lambda>p. Some True), randomUUID8 = ''0a1b2c3d'', mkdir_error = None,
      launch = (\<lambda>cmd. Inr (Some 5151))\<rparr>"

section \<open>Theorems: splitCommandTemplate\<close>

lemma cut_tokens_nonempty: "cut_tokens ps \<noteq> []"
  by (induction ps rule: cut_tokens.induct) (auto split: list.splits)

lemma split_loop_classify:
  "\<not> (inS \<and> inD) \<Longrightarrow>
   split_loop res cur inS inD s =
     (case classify (mode_of inS inD) s of
        (ps, m) \<Rightarrow> (case feed (res, cur) ps of
           (res', cur') \<Rightarrow> (res', cur', m = InSingle, m = InDouble)))"
proof (induction res cur inS inD s rule: split_loop.induct)
  case (1 result current inS inD)
  then show ?case by (auto simp: mode_of_def)
next
  case (2 result current inS inD ch rest)
  show ?case
  proof (cases inS)
    case True
    then have nd: "\<not> inD" using 2 by simp
    show ?thesis using 2(1,2) True nd
      by (cases "ch = SQ") (simp_all add: mode_of_def split: prod.splits)
  next
    case False
    note nS = False
    show ?thesis
    proof (cases inD)
      case True
      note D = True
      show ?thesis
      proof (cases "ch = DQ")
        case True
        then show ?thesis using "2.IH"(3)[OF nS D True] nS D by (simp add: mode_of_def)
      next
        case False
        note nDQ = False
        show ?thesis
        proof (cases "ch = BSL")
          case True
          note B = True
          show ?thesis
          proof (cases rest)
            case Nil
            then show ?thesis using "2.IH"(4)[OF nS D nDQ B Nil] nS D B by (simp add: mode_of_def)
          next
            case (Cons nxt rest')
            show ?thesis
            proof (cases "nxt = DQ \<or> nxt = BSL")
              case True
              then show ?thesis using "2.IH"(5)[OF nS D nDQ B Cons True] nS D B Cons
                by (simp add: mode_of_def split: prod.splits)
            next
              case False
              then show ?thesis using "2.IH"(6)[OF nS D nDQ B Cons False] nS D B Cons
                by (simp add: mode_of_def split: prod.splits)
            qed
          qed
        next
          case False
          then show ?thesis using "2.IH"(7)[OF nS D nDQ False] nS D nDQ
            by (simp add: mode_of_def split: prod.splits)
        qed
      qed
    next
      case False
      note nD = False
      show ?thesis
      proof (cases "ch = SQ")
        case True
        then show ?thesis using "2.IH"(8)[OF nS nD True] nS nD by (simp add: mode_of_def)
      next
        case False
        note nSQ = False
        show ?thesis
        proof (cases "ch = DQ")
          case True
          then show ?thesis using "2.IH"(9)[OF nS nD nSQ True] nS nD nSQ by (simp add: mode_of_def)
        next
          case False
          note nDQ = False
          show ?thesis
          proof (cases "ch = SPC \<or> ch = TAB")
            case True
            note W = True
            show ?thesis
            proof (cases "current \<noteq> []")
              case True
              then show ?thesis using "2.IH"(10)[OF nS nD nSQ nDQ W True] nS nD nSQ nDQ W
                by (auto simp: mode_of_def split: prod.splits)
            next
              case False
              then show ?thesis using "2.IH"(11)[OF nS nD nSQ nDQ W False] nS nD nSQ nDQ W
                by (auto simp: mode_of_def split: prod.splits)
            qed
          next
            case False
            then show ?thesis using "2.IH"(12)[OF nS nD nSQ nDQ False] nS nD nSQ nDQ
              by (auto simp: mode_of_def split: prod.splits)
          qed
        qed
      qed
    qed
  qed
qed

lemma feed_cut:
  "(case feed (res, cur) ps of (res', cur') \<Rightarrow> (if cur' \<noteq> [] then res' @ [cur'] else res'))
   = res @ filter (\<lambda>w. w \<noteq> []) (case cut_tokens ps of [] \<Rightarrow> [cur] | w # ws \<Rightarrow> (cur @ w) # ws)"
proof (induction ps arbitrary: res cur)
  case Nil
  then show ?case by simp
next
  case (Cons p ps)
  have ne: "cut_tokens ps \<noteq> []" by (rule cut_tokens_nonempty)
  show ?case
  proof (cases p)
    case Sep
    then show ?thesis using Cons[of "if cur \<noteq> [] then res @ [cur] else res" "[]"] ne
      by (auto split: list.splits)
  next
    case (Lit c)
    then show ?thesis using Cons[of res "cur @ [c]"] ne
      by (auto split: list.splits)
  qed
qed

text \<open>
  Claim C10. \<^verbatim>\<open>splitCommandTemplate\<close> throws exactly when its input has an unterminated
  single or double quote; on every other input it returns the input split at unquoted
  spaces and tabs, quote characters removed, single-quoted text taken literally and only
  backslash-doublequote and backslash-backslash unescaped inside double quotes. The loop
  of the source is compared with the two-pass reading of its documentation.
\<close>

theorem splitCommandTemplate_refines:
  "splitCommandTemplate s =
     (if unterminated_quote s then Inl (UnterminatedQuote s) else Inr (documented_split s))"
proof -
  obtain ps m where c: "classify Unquoted s = (ps, m)" by (cases "classify Unquoted s")
  obtain res' cur' where f: "feed ([], []) ps = (res', cur')" by (cases "feed ([], []) ps")
  have sl: "split_loop [] [] False False s = (res', cur', m = InSingle, m = InDouble)"
    using split_loop_classify[of False False "[]" "[]" s] c f by (simp add: mode_of_def)
  have fc: "(if cur' \<noteq> [] then res' @ [cur'] else res') = filter (\<lambda>w. w \<noteq> []) (cut_tokens ps)"
    using feed_cut[of "[]" "[]" ps] f cut_tokens_nonempty[of ps] by (auto split: list.splits)
  have um: "unterminated_quote s = (m = InSingle \<or> m = InDouble)"
    using c by (cases m) (auto simp: unterminated_quote_def)
  show ?thesis
    unfolding splitCommandTemplate_def sl using fc um c
    by (auto simp: documented_split_def Let_def)
qed

text \<open>The cases of the repository's tests of \<^verbatim>\<open>splitCommandTemplate\<close>.\<close>

lemma splitCommandTemplate_examples:
  "splitCommandTemplate ''codex exec --sandbox workspace-write {prompt} --json''
     = Inr [''codex'', ''exec'', ''--sandbox'', ''workspace-write'', ''{prompt}'', ''--json'']"
  "splitCommandTemplate (''my-cli -p '' @ [DQ] @ ''{prompt}'' @ [DQ] @ '' --json'')
     = Inr [''my-cli'', ''-p'', ''{prompt}'', ''--json'']"
  "splitCommandTemplate (''my-cli '' @ [DQ] @ ''hello '' @ [BSL, DQ] @ ''world'' @ [BSL, DQ, DQ])
     = Inr [''my-cli'', ''hello '' @ [DQ] @ ''world'' @ [DQ]]"
  "splitCommandTemplate ''cmd   --flag   {prompt}'' = Inr [''cmd'', ''--flag'', ''{prompt}'']"
  "splitCommandTemplate (''my-cli '' @ [SQ] @ ''{prompt}'')
     = Inl (UnterminatedQuote (''my-cli '' @ [SQ] @ ''{prompt}''))"
  "splitCommandTemplate (''my-cli '' @ [DQ] @ ''{prompt}'')
     = Inl (UnterminatedQuote (''my-cli '' @ [DQ] @ ''{prompt}''))"
  by (simp_all add: splitCommandTemplate_def)

section \<open>Theorems: the persisted record\<close>

lemma map_of_saveMeta:
  "map_of (disk (saveMeta a w)) (agentId a) =
     Some ((case map_of (disk w) (agentId a) of Some d \<Rightarrow> d
            | None \<Rightarrow> \<lparr>meta_json = None, stdout_log = None\<rparr>)\<lparr>meta_json := Some (toMeta a)\<rparr>)"
  by (simp add: saveMeta_def Let_def update_conv')

lemma loadFromDisk_saveMeta:
  "loadFromDisk (saveMeta a w) (agentId a) = Some (fromMeta (toMeta a))"
  by (simp add: loadFromDisk_def map_of_saveMeta)

lemma AgentStatus_index_status_value: "AgentStatus_index (status_value st) = None"
  by (cases st) (simp_all add: AgentStatus_index_def)

text \<open>
  Claim C9. Whatever lower-case status \<^verbatim>\<open>saveMeta\<close> wrote into a \<^verbatim>\<open>meta.json\<close>
  (running, completed, failed or stopped), \<^verbatim>\<open>loadFromDisk\<close> returns a record whose
  status is running: the enum has only the upper-case keys, so the lookup finds nothing
  and the fallback applies.
\<close>

theorem loadFromDisk_status_is_running:
  assumes "map_of (disk w) i = Some d" and "meta_json d = Some m"
    and "m_status m = status_value st"
  shows "AgentStatus_index (m_status m) = None \<and>
         map_option status (loadFromDisk w i) = Some RUNNING"
  using assms by (simp add: loadFromDisk_def fromMeta_def AgentStatus_index_status_value)

theorem loadFromDisk_status_is_running_witness:
  "m_status (toMeta (sample_agent\<lparr>status := COMPLETED, completedAt := Some 2000\<rparr>)) = ''completed'' \<and>
   map_option status
     (loadFromDisk (saveMeta (sample_agent\<lparr>status := COMPLETED, completedAt := Some 2000\<rparr>) sample_world)
        ''agent-1'') = Some RUNNING"
proof -
  let ?a = "sample_agent\<lparr>status := COMPLETED, completedAt := Some 2000\<rparr>"
  have id: "agentId ?a = ''agent-1''" by (simp add: sample_agent_def new_AgentProcess_def)
  have 1: "map_of (disk (saveMeta ?a sample_world)) ''agent-1''
             = Some \<lparr>meta_json = Some (toMeta ?a), stdout_log = Some sample_log\<rparr>"
    using map_of_saveMeta[of ?a sample_world] unfolding id by (simp add: sample_world_def)
  have 2: "m_status (toMeta ?a) = status_value COMPLETED" by (simp add: toMeta_def)
  show ?thesis
    using loadFromDisk_status_is_running[OF 1 _ 2] by (simp add: toMeta_def)
qed

text \<open>
  Claim C4 asks that \<^verbatim>\<open>saveMeta\<close> followed by \<^verbatim>\<open>loadFromDisk\<close> gives back the
  record's \<^verbatim>\<open>session_id\<close>, \<^verbatim>\<open>conversation_turn\<close>, \<^verbatim>\<open>original_agent_id\<close>,
  \<^verbatim>\<open>reply_agent_ids\<close> and \<^verbatim>\<open>workspace_dir\<close>. In this code the first four are
  never written and come back unset for every record; \<^verbatim>\<open>workspace_dir\<close> comes back,
  an empty string as null.
\<close>

theorem saveMeta_loadFromDisk_drops_resume_chain:
  "map_option sessionId (loadFromDisk (saveMeta a w) (agentId a)) = Some None \<and>
   map_option conversationTurn (loadFromDisk (saveMeta a w) (agentId a)) = Some None \<and>
   map_option originalAgentId (loadFromDisk (saveMeta a w) (agentId a)) = Some None \<and>
   map_option replyAgentIds (loadFromDisk (saveMeta a w) (agentId a)) = Some None \<and>
   map_option workspaceDir (loadFromDisk (saveMeta a w) (agentId a)) = Some (or_null (workspaceDir a))"
  by (simp add: loadFromDisk_saveMeta fromMeta_def toMeta_def)

section \<open>Theorems: the log reader\<close>

lemma foldl_invariant:
  assumes "P a" and "\<And>b x. P b \<Longrightarrow> P (f b x)"
  shows "P (foldl f a xs)"
  using assms(1) by (induction xs arbitrary: a) (simp_all add: assms(2))

lemma push_event_preserves:
  assumes "P b"
    and ev: "\<And>c evs. P c \<Longrightarrow> P (c\<lparr>eventsCache := evs\<rparr>)"
    and st: "\<And>c s t. P c \<Longrightarrow> s \<noteq> RUNNING \<Longrightarrow> P (c\<lparr>status := s, completedAt := Some t\<rparr>)"
  shows "P (push_event nw t b e)"
proof -
  have 1: "P (b\<lparr>eventsCache := evs\<rparr>)" for evs using assms(1) by (rule ev)
  have 2: "P (b\<lparr>eventsCache := evs, status := s, completedAt := Some u\<rparr>)"
    if "s \<noteq> RUNNING" for evs s u
    using st[OF 1 that] by simp
  show ?thesis
    unfolding push_event_def Let_def using 1 2 by simp
qed

lemma unparsed_line_preserves:
  assumes "P b" and ev: "\<And>c evs. P c \<Longrightarrow> P (c\<lparr>eventsCache := evs\<rparr>)"
  shows "P (unparsed_line env fb b l)"
  unfolding unparsed_line_def Let_def using assms(1) ev[OF assms(1)] by simp

lemma process_line_preserves:
  assumes "P b"
    and ev: "\<And>c evs. P c \<Longrightarrow> P (c\<lparr>eventsCache := evs\<rparr>)"
    and st: "\<And>c s t. P c \<Longrightarrow> s \<noteq> RUNNING \<Longrightarrow> P (c\<lparr>status := s, completedAt := Some t\<rparr>)"
  shows "P (process_line env nw fb b l)"
proof -
  have u: "P (unparsed_line env fb b l)"
    using assms(1) ev by (rule unparsed_line_preserves)
  have f: "P (foldl (push_event nw t) b evs)" for t evs
    by (rule foldl_invariant[where P = P, OF assms(1)]) (rule push_event_preserves[where P = P, OF _ ev st])
  have s: "P (b\<lparr>status := (if x = JNum 0 then COMPLETED else FAILED), completedAt := Some fb\<rparr>)" for x
    by (rule st[OF assms(1)]) simp
  show ?thesis
    unfolding process_line_def Let_def using u f s
    by (simp split: option.splits)
qed

lemma readNewEvents_preserves:
  assumes "P a"
    and pos: "\<And>c n. P c \<Longrightarrow> P (c\<lparr>lastReadPos := n\<rparr>)"
    and ev: "\<And>c evs. P c \<Longrightarrow> P (c\<lparr>eventsCache := evs\<rparr>)"
    and st: "\<And>c s t. P c \<Longrightarrow> s \<noteq> RUNNING \<Longrightarrow> P (c\<lparr>status := s, completedAt := Some t\<rparr>)"
  shows "P (readNewEvents env nw lg a)"
proof (cases lg)
  case None
  then show ?thesis using assms(1) by (simp add: readNewEvents_def)
next
  case (Some f)
  have "P (foldl (process_line env nw (mtime f)) (a\<lparr>lastReadPos := n\<rparr>) ls)" for n ls
    by (rule foldl_invariant[where P = P, OF pos[OF assms(1)]])
      (rule process_line_preserves[where P = P, OF _ ev st])
  then show ?thesis using Some assms(1) by (simp add: readNewEvents_def Let_def)
qed

lemma readNewEvents_identity: "same_identity a (readNewEvents env nw lg a)"
  by (rule readNewEvents_preserves) (simp_all add: same_identity_def)

lemma readNewEvents_agentId [simp]: "agentId (readNewEvents env nw lg a) = agentId a"
  using readNewEvents_identity[of a env nw lg] by (simp add: same_identity_def)

lemma readNewEvents_pid [simp]: "pid (readNewEvents env nw lg a) = pid a"
  using readNewEvents_identity[of a env nw lg] by (simp add: same_identity_def)

lemma readNewEvents_startedAt [simp]: "startedAt (readNewEvents env nw lg a) = startedAt a"
  using readNewEvents_identity[of a env nw lg] by (simp add: same_identity_def)

lemma readNewEvents_settled:
  "status a \<noteq> RUNNING \<Longrightarrow> status (readNewEvents env nw lg a) \<noteq> RUNNING"
  by (rule readNewEvents_preserves) simp_all

lemma readNewEvents_completedAt:
  "completedAt a \<noteq> None \<Longrightarrow> completedAt (readNewEvents env nw lg a) \<noteq> None"
  by (rule readNewEvents_preserves) simp_all

lemma readNewEvents_no_log [simp]: "readNewEvents env nw None a = a"
  by (simp add: readNewEvents_def)

lemma readNewEvents_nothing_new:
  "length (content f) \<le> lastReadPos a \<Longrightarrow> readNewEvents env nw (Some f) a = a"
  by (simp add: readNewEvents_def)


lemma process_line_lastReadPos: "lastReadPos (process_line env nw fb b l) = lastReadPos b"
  by (rule process_line_preserves[where P = "\<lambda>c. lastReadPos c = lastReadPos b"]) simp_all

lemma foldl_process_line_lastReadPos:
  "lastReadPos (foldl (process_line env nw fb) b ls) = lastReadPos b"
  by (induction ls arbitrary: b) (simp_all add: process_line_lastReadPos)

lemma readNewEvents_lastReadPos:
  "lastReadPos (readNewEvents env nw (Some f) a) =
     lastReadPos a + length (take BUFFER_SIZE (drop (lastReadPos a) (content f)))"
  by (simp add: readNewEvents_def Let_def foldl_process_line_lastReadPos del: length_take length_drop)

lemma process_line_sentinel:
  assumes "JSON_parse env l = Some (JObj kv)" and "map_of kv EXIT_KEY = Some v"
  shows "process_line env nw fb a l =
           a\<lparr>status := (if v = JNum 0 then COMPLETED else FAILED), completedAt := Some fb\<rparr>"
  using assms by (simp add: process_line_def)

lemma unparsed_line_keeps_status:
  "status (unparsed_line env fb b l) = status b \<and>
   completedAt (unparsed_line env fb b l) = completedAt b"
  by (simp add: unparsed_line_def Let_def)

lemma push_event_neutral:
  "\<not> assigns_status ev \<Longrightarrow>
   status (push_event nw t b ev) = status b \<and> completedAt (push_event nw t b ev) = completedAt b"
  by (simp add: push_event_def assigns_status_def Let_def)

lemma foldl_push_event_neutral:
  "\<not> list_ex assigns_status evs \<Longrightarrow>
   status (foldl (push_event nw t) b evs) = status b \<and>
   completedAt (foldl (push_event nw t) b evs) = completedAt b"
  by (induction evs arbitrary: b) (simp_all add: push_event_neutral)

lemma process_line_neutral:
  assumes "\<not> sets_status env (agentType b) x"
  shows "status (process_line env nw fb b x) = status b \<and>
         completedAt (process_line env nw fb b x) = completedAt b"
  using assms
  by (auto simp: process_line_def sets_status_def Let_def unparsed_line_keeps_status
        foldl_push_event_neutral split: option.splits)

lemma process_line_agentType: "agentType (process_line env nw fb b x) = agentType b"
  by (rule process_line_preserves[where P = "\<lambda>c. agentType c = agentType b"]) simp_all

lemma foldl_neutral_lines:
  "list_all (\<lambda>x. \<not> sets_status env (agentType b) x) rest \<Longrightarrow>
   status (foldl (process_line env nw fb) b rest) = status b \<and>
   completedAt (foldl (process_line env nw fb) b rest) = completedAt b"
proof (induction rest arbitrary: b)
  case Nil
  then show ?case by simp
next
  case (Cons x rest)
  have "list_all (\<lambda>y. \<not> sets_status env (agentType (process_line env nw fb b x)) y) rest"
    using Cons.prems by (simp add: process_line_agentType)
  from Cons.IH[OF this] show ?case
    using Cons.prems by (simp add: process_line_neutral)
qed

lemma foldl_process_line_agentType:
  "agentType (foldl (process_line env nw fb) b ls) = agentType b"
  by (induction ls arbitrary: b) (simp_all add: process_line_agentType)

lemma new_lines_nonempty:
  assumes "new_lines pos f \<noteq> []"
  shows "length (take BUFFER_SIZE (drop pos (content f))) \<noteq> 0"
proof
  assume "length (take BUFFER_SIZE (drop pos (content f))) = 0"
  then have h: "take BUFFER_SIZE (drop pos (content f)) = []" by (simp only: length_0_conv)
  have "new_lines pos f = filter (\<lambda>l. l \<noteq> []) (map trim (split_nl []))"
    by (simp only: new_lines_def h)
  then have "new_lines pos f = []" by (simp add: trim_def)
  then show False using assms by simp
qed

lemma readNewEvents_lines:
  "new_lines (lastReadPos a) f \<noteq> [] \<Longrightarrow>
   readNewEvents env nw (Some f) a =
     foldl (process_line env nw (mtime f))
       (a\<lparr>lastReadPos := lastReadPos a + length (take BUFFER_SIZE (drop (lastReadPos a) (content f)))\<rparr>)
       (new_lines (lastReadPos a) f)"
  using new_lines_nonempty[of "lastReadPos a" f]
  by (simp add: readNewEvents_def Let_def del: length_take length_drop)

lemma readNewEvents_ends_with_sentinel:
  assumes "new_lines (lastReadPos a) f = ls @ [l]"
    and "JSON_parse env l = Some (JObj kv)"
    and "map_of kv EXIT_KEY = Some v"
  shows "status (readNewEvents env nw (Some f) a) = (if v = JNum 0 then COMPLETED else FAILED) \<and>
         completedAt (readNewEvents env nw (Some f) a) = Some (mtime f)"
proof -
  have ne: "new_lines (lastReadPos a) f \<noteq> []" using assms(1) by simp
  show ?thesis
    unfolding readNewEvents_lines[OF ne] assms(1)
    by (simp add: process_line_sentinel[OF assms(2,3)])
qed

lemma readNewEvents_neutral:
  assumes "list_all (\<lambda>x. \<not> sets_status env (agentType a) x) (new_lines (lastReadPos a) f)"
  shows "status (readNewEvents env nw (Some f) a) = status a \<and>
         completedAt (readNewEvents env nw (Some f) a) = completedAt a"
proof (cases "length (take BUFFER_SIZE (drop (lastReadPos a) (content f))) = 0")
  case True
  then show ?thesis by (simp add: readNewEvents_def del: length_take length_drop)
next
  case False
  let ?a0 = "a\<lparr>lastReadPos := lastReadPos a + length (take BUFFER_SIZE (drop (lastReadPos a) (content f)))\<rparr>"
  have r: "readNewEvents env nw (Some f) a
             = foldl (process_line env nw (mtime f)) ?a0 (new_lines (lastReadPos a) f)"
    using False by (simp add: readNewEvents_def Let_def del: length_take length_drop)
  have n: "list_all (\<lambda>x. \<not> sets_status env (agentType ?a0) x) (new_lines (lastReadPos a) f)"
    using assms by simp
  show ?thesis
    unfolding r using foldl_neutral_lines[OF n, of nw "mtime f"] by simp
qed

lemma not_json_neutral: "JSON_parse env x = None \<Longrightarrow> \<not> sets_status env t x"
  by (simp add: sets_status_def)

text \<open>
  Claim C7, as amended. \<^verbatim>\<open>readNewEvents\<close> reads at most one buffer of bytes from the
  record's read offset and works through the lines of that piece in order. When those
  lines contain a sentinel line (a JSON object with the key \<^verbatim>\<open>__exit_code__\<close>) and no
  line after it in the same piece assigns the status again (none is a sentinel or yields a
  terminal event), the call leaves the status completed for exit code 0 and failed for
  any other value, and \<^verbatim>\<open>completedAt\<close> equal to the log file's modification time.
\<close>

theorem readNewEvents_sentinel:
  assumes "new_lines (lastReadPos a) f = ls @ [l] @ rest"
    and "JSON_parse env l = Some (JObj kv)"
    and "map_of kv EXIT_KEY = Some v"
    and "list_all (\<lambda>x. \<not> sets_status env (agentType a) x) rest"
  shows "status (readNewEvents env nw (Some f) a) = (if v = JNum 0 then COMPLETED else FAILED) \<and>
         completedAt (readNewEvents env nw (Some f) a) = Some (mtime f)"
proof -
  let ?a0 = "a\<lparr>lastReadPos := lastReadPos a + length (take BUFFER_SIZE (drop (lastReadPos a) (content f)))\<rparr>"
  let ?b = "foldl (process_line env nw (mtime f)) ?a0 ls"
  let ?c = "process_line env nw (mtime f) ?b l"
  have ne: "new_lines (lastReadPos a) f \<noteq> []" using assms(1) by simp
  have r: "readNewEvents env nw (Some f) a = foldl (process_line env nw (mtime f)) ?c rest"
    using readNewEvents_lines[OF ne, of env nw] assms(1) by simp
  have c: "?c = ?b\<lparr>status := (if v = JNum 0 then COMPLETED else FAILED), completedAt := Some (mtime f)\<rparr>"
    by (rule process_line_sentinel[OF assms(2,3)])
  have t: "agentType ?c = agentType a"
    by (simp add: process_line_agentType foldl_process_line_agentType)
  have n: "list_all (\<lambda>x. \<not> sets_status env (agentType ?c) x) rest"
    using assms(4) unfolding t .
  have s: "status (foldl (process_line env nw (mtime f)) ?c rest) = status ?c \<and>
           completedAt (foldl (process_line env nw (mtime f)) ?c rest) = completedAt ?c"
    by (rule foldl_neutral_lines[OF n])
  have sc: "status ?c = (if v = JNum 0 then COMPLETED else FAILED)"
    by (subst c) simp
  have cc: "completedAt ?c = Some (mtime f)"
    by (subst c) simp
  from s sc cc show ?thesis unfolding r by simp
qed

lemma trailing_log_lines:
  "new_lines 0 trailing_log = [''some output''] @ [sentinel_line ''3''] @ [''Done.'']"
  by (simp add: new_lines_def trailing_log_def sentinel_line_def BUFFER_SIZE_def trim_def is_ws_def)

theorem readNewEvents_sentinel_witness:
  "status (readNewEvents sample_env 9000 (Some trailing_log) sample_agent) = FAILED \<and>
   completedAt (readNewEvents sample_env 9000 (Some trailing_log) sample_agent) = Some 12000"
proof -
  have p: "lastReadPos sample_agent = 0" by (simp add: sample_agent_def new_AgentProcess_def)
  have 1: "new_lines (lastReadPos sample_agent) trailing_log
             = [''some output''] @ [sentinel_line ''3''] @ [''Done.'']"
    unfolding p by (rule trailing_log_lines)
  have 2: "JSON_parse sample_env (sentinel_line ''3'') = Some (JObj [(EXIT_KEY, JNum 3)])"
    by (simp add: sample_env_def sample_JSON_parse_def sentinel_line_def)
  have 3: "map_of [(EXIT_KEY, JNum 3)] EXIT_KEY = Some (JNum 3)" by simp
  have 4: "list_all (\<lambda>x. \<not> sets_status sample_env (agentType sample_agent) x) [''Done.'']"
    by (simp add: sets_status_def sample_env_def sample_JSON_parse_def sentinel_line_def)
  show ?thesis
    using readNewEvents_sentinel[OF 1 2 3 4, of 9000] by (simp add: trailing_log_def)
qed


lemma split_nl_no_newline: "NL \<notin> set xs \<Longrightarrow> split_nl xs = [xs]"
  by (induction xs) auto

lemma split_nl_first_line: "NL \<notin> set xs \<Longrightarrow> split_nl (xs @ NL # rest) = xs # split_nl rest"
  by (induction xs) auto

lemma trim_filler: "trim filler = filler"
proof -
  have "dropWhile is_ws (replicate n (CHR ''x'')) = replicate n (CHR ''x'')" for n
    by (cases n) (simp_all add: is_ws_def)
  then show ?thesis by (simp add: trim_def filler_def)
qed

lemma length_filler: "length filler = 1048570"
  by (simp add: filler_def BUFFER_SIZE_def)

lemma filler_no_newline: "NL \<notin> set filler"
  by (simp add: filler_def)

lemma filler_not_json: "sample_JSON_parse filler = None"
proof -
  have "filler \<noteq> sentinel_line d" if "length d = 1" for d
  proof
    assume "filler = sentinel_line d"
    then have "length filler = length (sentinel_line d)" by simp
    then show False using that by (simp add: length_filler sentinel_line_def)
  qed
  then have "filler \<noteq> sentinel_line ''0''" "filler \<noteq> sentinel_line ''3''"
    by simp_all
  then show ?thesis by (simp add: sample_JSON_parse_def)
qed

lemma filler_nonempty: "filler \<noteq> []"
  using length_filler by auto

lemma long_log_first_buffer:
  "take BUFFER_SIZE (drop 0 (content long_log)) = filler @ NL # take 5 (sentinel_line ''0'')"
  by (simp add: long_log_def BUFFER_SIZE_def length_filler sentinel_line_def)

lemma long_log_second_buffer:
  "take BUFFER_SIZE (drop 1048576 (content long_log)) = drop 5 (sentinel_line ''0'') @ [NL]"
  by (simp add: long_log_def BUFFER_SIZE_def length_filler sentinel_line_def)

lemma long_log_length: "length (content long_log) = 1048591"
  by (simp add: long_log_def length_filler sentinel_line_def)

lemma long_log_first_lines:
  "new_lines 0 long_log = [filler, take 5 (sentinel_line ''0'')]"
proof -
  have h: "take 5 (sentinel_line ''0'') = ''{'' @ [DQ] @ ''__e''"
    by (simp add: sentinel_line_def)
  have n: "NL \<notin> set (''{'' @ [DQ] @ ''__e'')" by (simp )
  have "new_lines 0 long_log
          = filter (\<lambda>l. l \<noteq> []) (map trim (split_nl (filler @ NL # take 5 (sentinel_line ''0''))))"
    unfolding new_lines_def long_log_first_buffer ..
  also have "\<dots> = filter (\<lambda>l. l \<noteq> []) (map trim [filler, take 5 (sentinel_line ''0'')])"
    unfolding h by (simp only: split_nl_first_line[OF filler_no_newline] split_nl_no_newline[OF n])
  also have "\<dots> = [filler, take 5 (sentinel_line ''0'')]"
    unfolding h by (simp add: trim_filler filler_nonempty) (simp add: trim_def is_ws_def)
  finally show ?thesis .
qed

lemma long_log_second_lines:
  "new_lines 1048576 long_log = [drop 5 (sentinel_line ''0'')]"
  unfolding new_lines_def long_log_second_buffer
  by (simp add: sentinel_line_def trim_def is_ws_def)


lemma long_log_first_read:
  "status (readNewEvents sample_env 9000 (Some long_log) sample_agent) = RUNNING"
  "completedAt (readNewEvents sample_env 9000 (Some long_log) sample_agent) = None"
  "lastReadPos (readNewEvents sample_env 9000 (Some long_log) sample_agent) = 1048576"
  "agentType (readNewEvents sample_env 9000 (Some long_log) sample_agent) = Codex"
proof -
  have p: "lastReadPos sample_agent = 0" by (simp add: sample_agent_def new_AgentProcess_def)
  have j: "JSON_parse sample_env filler = None"
          "JSON_parse sample_env (take 5 (sentinel_line ''0'')) = None"
    by (simp_all add: sample_env_def filler_not_json)
       (simp add: sample_JSON_parse_def sentinel_line_def)
  have n: "list_all (\<lambda>x. \<not> sets_status sample_env (agentType sample_agent) x)
             (new_lines (lastReadPos sample_agent) long_log)"
    unfolding p long_log_first_lines by (simp add: not_json_neutral j)
  from readNewEvents_neutral[OF n, of 9000]
  show "status (readNewEvents sample_env 9000 (Some long_log) sample_agent) = RUNNING"
       "completedAt (readNewEvents sample_env 9000 (Some long_log) sample_agent) = None"
    by (simp_all add: sample_agent_def new_AgentProcess_def)
  show "lastReadPos (readNewEvents sample_env 9000 (Some long_log) sample_agent) = 1048576"
    unfolding readNewEvents_lastReadPos p long_log_first_buffer
    by (simp add: length_filler sentinel_line_def)
  show "agentType (readNewEvents sample_env 9000 (Some long_log) sample_agent) = Codex"
    using readNewEvents_identity[of sample_agent sample_env 9000 "Some long_log"]
    by (simp add: same_identity_def sample_agent_def new_AgentProcess_def)
qed

lemma two_sentinel_log_lines:
  "new_lines 0 two_sentinel_log = [sentinel_line ''3''] @ [sentinel_line ''0'']"
  by (simp add: new_lines_def two_sentinel_log_def sentinel_line_def BUFFER_SIZE_def trim_def is_ws_def)

text \<open>
  The claim C7 as stated fails on a log that contains a sentinel line. In the first
  example the sentinel for exit code 0 begins five bytes before the end of the first
  buffer: the first call reads its first five bytes as a line, the second call the rest
  as another, neither is JSON, and after the whole log has been read the record is still
  running without a completion time. In the second example the log holds a sentinel for
  exit code 3 and after it one for exit code 0: the later line decides, and the record is
  completed.
\<close>

theorem sentinel_across_buffer_boundary:
  "content long_log = filler @ [NL] @ sentinel_line ''0'' @ [NL] \<and>
   JSON_parse sample_env (sentinel_line ''0'') = Some (JObj [(EXIT_KEY, JNum 0)]) \<and>
   status (readNewEvents sample_env 9000 (Some long_log)
             (readNewEvents sample_env 9000 (Some long_log) sample_agent)) = RUNNING \<and>
   completedAt (readNewEvents sample_env 9000 (Some long_log)
             (readNewEvents sample_env 9000 (Some long_log) sample_agent)) = None \<and>
   lastReadPos (readNewEvents sample_env 9000 (Some long_log)
             (readNewEvents sample_env 9000 (Some long_log) sample_agent))
     = length (content long_log) \<and>
   content two_sentinel_log = sentinel_line ''3'' @ [NL] @ sentinel_line ''0'' @ [NL] \<and>
   JSON_parse sample_env (sentinel_line ''3'') = Some (JObj [(EXIT_KEY, JNum 3)]) \<and>
   status (readNewEvents sample_env 9000 (Some two_sentinel_log) sample_agent) = COMPLETED"
proof -
  let ?a1 = "readNewEvents sample_env 9000 (Some long_log) sample_agent"
  have j: "JSON_parse sample_env (drop 5 (sentinel_line ''0'')) = None"
    by (simp add: sample_env_def sample_JSON_parse_def sentinel_line_def)
  have n: "list_all (\<lambda>x. \<not> sets_status sample_env (agentType ?a1) x)
             (new_lines (lastReadPos ?a1) long_log)"
    unfolding long_log_first_read long_log_second_lines by (simp add: not_json_neutral j)
  have 1: "status (readNewEvents sample_env 9000 (Some long_log) ?a1) = RUNNING"
          "completedAt (readNewEvents sample_env 9000 (Some long_log) ?a1) = None"
    using readNewEvents_neutral[OF n, of 9000] by (simp_all add: long_log_first_read)
  have "lastReadPos (readNewEvents sample_env 9000 (Some long_log) ?a1)
          = lastReadPos ?a1 + length (take BUFFER_SIZE (drop (lastReadPos ?a1) (content long_log)))"
    by (rule readNewEvents_lastReadPos)
  also have "\<dots> = 1048576 + length (drop 5 (sentinel_line ''0'') @ [NL])"
    by (simp only: long_log_first_read(3) long_log_second_buffer)
  also have "\<dots> = length (content long_log)"
    by (simp add: long_log_length sentinel_line_def)
  finally have 2: "lastReadPos (readNewEvents sample_env 9000 (Some long_log) ?a1)
                     = length (content long_log)" .
  have p: "lastReadPos sample_agent = 0" by (simp add: sample_agent_def new_AgentProcess_def)
  have l: "new_lines (lastReadPos sample_agent) two_sentinel_log
             = [sentinel_line ''3''] @ [sentinel_line ''0'']"
    unfolding p by (rule two_sentinel_log_lines)
  have j0: "JSON_parse sample_env (sentinel_line ''0'') = Some (JObj [(EXIT_KEY, JNum 0)])"
    by (simp add: sample_env_def sample_JSON_parse_def)
  have j3: "JSON_parse sample_env (sentinel_line ''3'') = Some (JObj [(EXIT_KEY, JNum 3)])"
    by (simp add: sample_env_def sample_JSON_parse_def sentinel_line_def)
  have 3: "status (readNewEvents sample_env 9000 (Some two_sentinel_log) sample_agent) = COMPLETED"
    using readNewEvents_ends_with_sentinel[OF l j0, of "JNum 0" 9000] by simp
  show ?thesis
    using 1 2 3 j0 j3 by (simp add: long_log_def two_sentinel_log_def)
qed


section \<open>Theorems: reconciliation against the operating system\<close>

lemma log_of_saveMeta: "agentId b = agentId a \<Longrightarrow> log_of (saveMeta a w) b = log_of w a"
  by (simp add: log_of_def saveMeta_def Let_def update_conv' split: option.splits)

lemma saveMeta_frame [simp]:
  "alive (saveMeta a w) = alive w" "now (saveMeta a w) = now w"
  "readdir_calls (saveMeta a w) = readdir_calls w"
  "saveMeta_calls (saveMeta a w) = saveMeta_calls w + 1"
  by (simp_all add: saveMeta_def Let_def)

lemma updateStatusFromProcess_world [simp]:
  "alive (snd (updateStatusFromProcess env a w)) = alive w"
  "now (snd (updateStatusFromProcess env a w)) = now w"
  "readdir_calls (snd (updateStatusFromProcess env a w)) = readdir_calls w"
  by (simp_all add: updateStatusFromProcess_def Let_def)

lemma updateStatusFromProcess_identity:
  "same_identity a (fst (updateStatusFromProcess env a w))"
  using readNewEvents_identity[of a env "now w" "log_of w a"]
  by (simp add: updateStatusFromProcess_def Let_def same_identity_def)

lemma updateStatusFromProcess_settled:
  "status a \<noteq> RUNNING \<Longrightarrow> status (fst (updateStatusFromProcess env a w)) \<noteq> RUNNING"
  using readNewEvents_settled[of a env "now w" "log_of w a"]
  by (simp add: updateStatusFromProcess_def Let_def)

lemma updateStatusFromProcess_completedAt:
  "completedAt a \<noteq> None \<Longrightarrow> completedAt (fst (updateStatusFromProcess env a w)) \<noteq> None"
  using readNewEvents_completedAt[of a env "now w" "log_of w a"]
  by (simp add: updateStatusFromProcess_def Let_def)

lemma updateStatusFromProcess_dead_running:
  assumes "pid_set (pid a)" and "\<not> isProcessAlive w a" and "status a = RUNNING"
    and "status (readNewEvents env (now w) (log_of w a) a) = RUNNING"
  shows "status (fst (updateStatusFromProcess env a w)) = FAILED"
    and "completedAt (fst (updateStatusFromProcess env a w))
           = Some (fallbackCompletion (readNewEvents env (now w) (log_of w a) a))"
  using assms
  by (auto simp: updateStatusFromProcess_def Let_def reapProcess_def isProcessAlive_def pid_set_def
      split: option.splits)

lemma updateStatusFromProcess_dead_saves:
  assumes "pid_set (pid a)" and "\<not> isProcessAlive w a"
  shows "saveMeta_calls (snd (updateStatusFromProcess env a w)) = saveMeta_calls w + 1"
  using assms by (simp add: updateStatusFromProcess_def Let_def)

lemma updateStatusFromProcess_dead_settled:
  assumes "\<not> isProcessAlive w a" and "status a \<noteq> RUNNING" and "completedAt a \<noteq> None"
  shows "fst (updateStatusFromProcess env a w) = a"
  using assms by (auto simp: updateStatusFromProcess_def Let_def)

lemma sample_agent_fields:
  "agentId sample_agent = ''agent-1''" "pid sample_agent = Some 999999"
  "status sample_agent = RUNNING" "completedAt sample_agent = None"
  "lastReadPos sample_agent = 0" "eventsCache sample_agent = []"
  "agentType sample_agent = Codex" "taskName sample_agent = ''task-1''"
  "startedAt sample_agent = 1000"
  by (simp_all add: sample_agent_def new_AgentProcess_def)

lemma sample_world_fields:
  "log_of sample_world sample_agent = Some sample_log" "now sample_world = 9000"
  "alive sample_world p = False" "saveMeta_calls sample_world = 0"
  by (simp_all add: sample_world_def log_of_def sample_agent_fields)

lemma sample_log_lines: "new_lines 0 sample_log = [''plain text line without json'']"
  by (simp add: new_lines_def sample_log_def BUFFER_SIZE_def trim_def is_ws_def)

lemma sample_log_length: "length (content sample_log) = 29"
  by (simp add: sample_log_def)

lemma sample_read:
  "readNewEvents sample_env 9000 (Some sample_log) sample_agent =
     sample_agent\<lparr>lastReadPos := 29,
        eventsCache := [\<lparr>ev_type = ''raw'', ev_status = None,
          ev_content = Some ''plain text line without json'', ev_timestamp = Some 5000\<rparr>]\<rparr>"
proof -
  have m: "mtime sample_log = 5000" by (simp add: sample_log_def)
  have p: "JSON_parse sample_env ''plain text line without json'' = None"
    by (simp add: sample_env_def sample_JSON_parse_def sentinel_line_def)
  have w: "win32 sample_env = False" by (simp add: sample_env_def)
  show ?thesis
    unfolding readNewEvents_def
    by (simp add: sample_agent_fields sample_log_lines sample_log_length BUFFER_SIZE_def m
        process_line_def p unparsed_line_def w Let_def del: length_take length_drop)
qed

text \<open>
  Claim C1 asks that a record whose process is gone while it is still running, and from
  whose log no terminal event was parsed, is marked completed and not failed. Evaluated
  on such a record (pid 999999, not alive, a log of one plain-text line):
  \<^verbatim>\<open>reapProcess\<close> answers 1 for a dead process, so \<^verbatim>\<open>updateStatusFromProcess\<close>
  marks it failed, with the latest event time as completion time; the status query
  \<^verbatim>\<open>getTaskAgents\<close> of \<^verbatim>\<open>cli.js\<close> reports the same record as completed.
\<close>

theorem dead_process_marked_failed:
  "pid sample_agent = Some 999999 \<and> \<not> isProcessAlive sample_world sample_agent \<and>
   status sample_agent = RUNNING \<and>
   status (fst (updateStatusFromProcess sample_env sample_agent sample_world)) = FAILED \<and>
   completedAt (fst (updateStatusFromProcess sample_env sample_agent sample_world)) = Some 5000 \<and>
   map i_status (getTaskAgents (saveMeta sample_agent sample_world) ''task-1'') = [''completed'']"
proof -
  have d: "\<not> isProcessAlive sample_world sample_agent"
    by (simp add: isProcessAlive_def sample_agent_fields sample_world_fields)
  have ps: "pid_set (pid sample_agent)" by (simp add: pid_set_def sample_agent_fields)
  have r: "status (readNewEvents sample_env (now sample_world) (log_of sample_world sample_agent)
             sample_agent) = RUNNING"
    by (simp add: sample_world_fields sample_read sample_agent_fields)
  have f: "fallbackCompletion (readNewEvents sample_env (now sample_world)
             (log_of sample_world sample_agent) sample_agent) = 5000"
    by (simp add: sample_world_fields sample_read fallbackCompletion_def getLatestEventTime_def
        later_time_def)
  have g: "map i_status (getTaskAgents (saveMeta sample_agent sample_world) ''task-1'') = [''completed'']"
    by (simp add: getTaskAgents_def saveMeta_def sample_world_def sample_agent_fields task_agent_def
        toMeta_def pid_set_def cli_isProcessAlive_def Let_def)
  show ?thesis
    using d updateStatusFromProcess_dead_running[OF ps d sample_agent_fields(3) r] f g
    by (simp add: sample_agent_fields)
qed

lemma refresh_dead_saves:
  assumes "pid_set (pid a)" and "\<not> isProcessAlive w a"
  shows "saveMeta_calls (snd (refresh env a w)) = saveMeta_calls w + 1"
proof -
  let ?b = "readNewEvents env (now w) (log_of w a) a"
  have "pid_set (pid ?b)" using assms(1) by simp
  moreover have "\<not> isProcessAlive w ?b" using assms(2) by (simp add: isProcessAlive_def)
  ultimately show ?thesis
    unfolding refresh_def by (rule updateStatusFromProcess_dead_saves)
qed

lemma sample_first_refresh:
  "refresh sample_env sample_agent sample_world =
     (sample_agent\<lparr>lastReadPos := 29,
        eventsCache := [\<lparr>ev_type = ''raw'', ev_status = None,
          ev_content = Some ''plain text line without json'', ev_timestamp = Some 5000\<rparr>],
        status := FAILED, completedAt := Some 5000\<rparr>,
      saveMeta (sample_agent\<lparr>lastReadPos := 29,
        eventsCache := [\<lparr>ev_type = ''raw'', ev_status = None,
          ev_content = Some ''plain text line without json'', ev_timestamp = Some 5000\<rparr>],
        status := FAILED, completedAt := Some 5000\<rparr>) sample_world)"
proof -
  let ?b = "sample_agent\<lparr>lastReadPos := 29,
        eventsCache := [\<lparr>ev_type = ''raw'', ev_status = None,
          ev_content = Some ''plain text line without json'', ev_timestamp = Some 5000\<rparr>]\<rparr>"
  have lg: "log_of sample_world ?b = Some sample_log"
    by (simp add: log_of_def sample_world_def sample_agent_fields)
  have again: "readNewEvents sample_env 9000 (Some sample_log) ?b = ?b"
    by (rule readNewEvents_nothing_new) (simp add: sample_log_length)
  have fc: "fallbackCompletion ?b = 5000"
    by (simp add: fallbackCompletion_def getLatestEventTime_def later_time_def)
  show ?thesis
    unfolding refresh_def sample_world_fields sample_read
    unfolding updateStatusFromProcess_def
    by (simp add: lg again fc sample_world_fields sample_agent_fields pid_set_def isProcessAlive_def
        reapProcess_def Let_def)
qed

text \<open>
  Claim C8 asks that running the reconciliation path (\<^verbatim>\<open>readNewEvents\<close>, then
  \<^verbatim>\<open>updateStatusFromProcess\<close>) a second time with no new log bytes adds no events
  and does not write the meta file again. Evaluated on the sample record, whose process
  is gone: the second run leaves the record as the first one left it, the log being the
  same, and writes the meta file a second time, because the path for a dead process
  ends in \<^verbatim>\<open>saveMeta\<close> whether or not anything changed.
\<close>

theorem second_reconciliation_rewrites_meta:
  "(case refresh sample_env sample_agent sample_world of
      (a1, w1) \<Rightarrow>
        (case refresh sample_env a1 w1 of
           (a2, w2) \<Rightarrow>
             log_of w1 a1 = log_of sample_world sample_agent \<and> a2 = a1 \<and>
             saveMeta_calls w1 = 1 \<and> saveMeta_calls w2 = 2))"
proof -
  let ?a1 = "sample_agent\<lparr>lastReadPos := 29,
        eventsCache := [\<lparr>ev_type = ''raw'', ev_status = None,
          ev_content = Some ''plain text line without json'', ev_timestamp = Some 5000\<rparr>],
        status := FAILED, completedAt := Some 5000\<rparr>"
  let ?w1 = "saveMeta ?a1 sample_world"
  have id: "agentId ?a1 = agentId sample_agent" by simp
  have lg: "log_of ?w1 ?a1 = Some sample_log"
    using log_of_saveMeta[of ?a1 ?a1 sample_world]
    by (simp add: log_of_def sample_world_def sample_agent_fields)
  have rd: "readNewEvents sample_env (now ?w1) (log_of ?w1 ?a1) ?a1 = ?a1"
    unfolding lg by (rule readNewEvents_nothing_new) (simp add: sample_log_length)
  have dead: "\<not> isProcessAlive ?w1 ?a1"
    by (simp add: isProcessAlive_def sample_world_fields sample_agent_fields)
  have u: "fst (updateStatusFromProcess sample_env ?a1 ?w1) = ?a1"
    by (rule updateStatusFromProcess_dead_settled[OF dead]) simp_all
  have c: "saveMeta_calls (snd (updateStatusFromProcess sample_env ?a1 ?w1)) = saveMeta_calls ?w1 + 1"
    by (rule updateStatusFromProcess_dead_saves[OF _ dead]) (simp add: pid_set_def sample_agent_fields)
  have second: "refresh sample_env ?a1 ?w1 = (?a1, snd (updateStatusFromProcess sample_env ?a1 ?w1))"
    unfolding refresh_def rd using u by (metis prod.collapse)
  show ?thesis
    unfolding sample_first_refresh
    by (simp only: prod.case second lg c sample_world_fields saveMeta_frame) simp
qed

lemma grown_log_lines: "new_lines 29 grown_log = [] @ [sentinel_line ''0'']"
  by (simp add: new_lines_def grown_log_def sample_log_def sentinel_line_def BUFFER_SIZE_def
      trim_def is_ws_def)

lemma sample_failed:
  "fst (updateStatusFromProcess sample_env sample_agent sample_world) =
     sample_agent\<lparr>lastReadPos := 29,
        eventsCache := [\<lparr>ev_type = ''raw'', ev_status = None,
          ev_content = Some ''plain text line without json'', ev_timestamp = Some 5000\<rparr>],
        status := FAILED, completedAt := Some 5000\<rparr>"
proof -
  have fc: "fallbackCompletion (sample_agent\<lparr>lastReadPos := 29,
        eventsCache := [\<lparr>ev_type = ''raw'', ev_status = None,
          ev_content = Some ''plain text line without json'', ev_timestamp = Some 5000\<rparr>]\<rparr>) = 5000"
    by (simp add: fallbackCompletion_def getLatestEventTime_def later_time_def)
  show ?thesis
    unfolding updateStatusFromProcess_def
    by (simp add: sample_world_fields sample_read fc sample_agent_fields pid_set_def
        isProcessAlive_def reapProcess_def Let_def)
qed

section \<open>Theorems: the command compiler\<close>

lemma starts_with_append: "starts_with (p @ s) p"
  by (induction p) simp_all

lemma str_includes_starts: "starts_with s p \<Longrightarrow> str_includes s p"
  by (cases s; cases p) simp_all

lemma str_includes_append_left: "str_includes s p \<Longrightarrow> str_includes (xs @ s) p"
proof (induction xs)
  case Nil
  then show ?case by simp
next
  case (Cons x xs)
  then show ?case by simp
qed

lemma str_includes_mid: "str_includes (xs @ p @ zs) p"
  by (rule str_includes_append_left) (rule str_includes_starts, rule starts_with_append)

lemma builtin_has_marker:
  "list_ex (\<lambda>part. str_includes part PROMPT_MARKER) (AGENT_COMMANDS t)"
  by (cases t) (simp_all add: PROMPT_MARKER_def)

lemma message_names_kind_and_marker:
  "\<exists>msg. error_message (MissingPromptPlaceholder t) = Some msg \<and>
         str_includes msg (agent_type_name t) \<and> str_includes msg PROMPT_MARKER"
proof -
  let ?pre = "''Agent config for '' @ [SQ]"
  let ?mid = "[SQ] @ '' is missing the required ''"
  let ?post = "'' placeholder in its command. ''
       @ ''Config path: ~/.agents/swarm/config.json. ''
       @ ''Example fix: '' @ [DQ] @ ''my-cli run '' @ [SQ] @ ''{prompt}'' @ [SQ] @ '' --json'' @ [DQ]"
  have m: "error_message (MissingPromptPlaceholder t)
             = Some (?pre @ agent_type_name t @ (?mid @ PROMPT_MARKER @ ?post))"
    by (simp add: PROMPT_MARKER_def)
  have 1: "str_includes (?pre @ agent_type_name t @ (?mid @ PROMPT_MARKER @ ?post)) (agent_type_name t)"
    by (rule str_includes_mid)
  have 2: "str_includes ((?pre @ agent_type_name t @ ?mid) @ PROMPT_MARKER @ ?post) PROMPT_MARKER"
    by (rule str_includes_mid)
  have e: "(?pre @ agent_type_name t @ ?mid) @ PROMPT_MARKER @ ?post
             = ?pre @ agent_type_name t @ (?mid @ PROMPT_MARKER @ ?post)"
    by simp
  show ?thesis using m 1 2 unfolding e by blast
qed

text \<open>
  Claim C6, as amended. For every agent kind and every override command that splits into
  tokens without a quoting error: if no token contains the marker \<^verbatim>\<open>{prompt}\<close>,
  \<^verbatim>\<open>buildCommand\<close> fails with the configuration error whose message names the agent
  kind and the marker; if a token contains it and the first token (after substitution)
  is not an executable name recognized for the kind, \<^verbatim>\<open>buildCommand\<close> returns the
  tokens with the prompt substituted and nothing else added. Every built-in template
  contains the marker.
\<close>

theorem buildCommand_template_checks:
  assumes "trim (command (cfg t)) \<noteq> []"
    and "splitCommandTemplate (trim (command (cfg t))) = Inr ts"
  shows "(\<not> list_ex (\<lambda>part. str_includes part PROMPT_MARKER) ts \<longrightarrow>
            buildCommand env (Some cfg) t p md mdl c = Inl (MissingPromptPlaceholder t) \<and>
            (\<exists>msg. error_message (MissingPromptPlaceholder t) = Some msg \<and>
                   str_includes msg (agent_type_name t) \<and> str_includes msg PROMPT_MARKER)) \<and>
         (list_ex (\<lambda>part. str_includes part PROMPT_MARKER) ts \<and>
          \<not> isCompatibleAgentCli (win32 env) t (map (replaceAll_prompt (full_prompt t md p)) ts) \<longrightarrow>
            buildCommand env (Some cfg) t p md mdl c
              = Inr (map (replaceAll_prompt (full_prompt t md p)) ts)) \<and>
         list_ex (\<lambda>part. str_includes part PROMPT_MARKER) (AGENT_COMMANDS t)"
  using assms message_names_kind_and_marker[of t] builtin_has_marker[of t]
  by (simp add: buildCommand_def Let_def)

lemma split_no_marker:
  "splitCommandTemplate no_marker_command = Inr [''gh'', ''copilot'', ''suggest'', ''--output'', ''json'']"
  by (simp add: splitCommandTemplate_def no_marker_command_def)

lemma split_custom:
  "splitCommandTemplate custom_command
     = Inr [''gh'', ''copilot'', ''suggest'', ''{prompt}'', ''--output'', ''json'']"
  by (simp add: splitCommandTemplate_def custom_command_def quoted_prompt_def)

lemma split_unterminated:
  "splitCommandTemplate unterminated_command = Inl (UnterminatedQuote unterminated_command)"
  by (simp add: splitCommandTemplate_def unterminated_command_def)

lemma trim_no_marker: "trim no_marker_command = no_marker_command"
  by (simp add: trim_def no_marker_command_def is_ws_def)

lemma trim_custom: "trim custom_command = custom_command"
  by (simp add: trim_def custom_command_def is_ws_def quoted_prompt_def)

lemma trim_unterminated: "trim unterminated_command = unterminated_command"
  by (simp add: trim_def unterminated_command_def is_ws_def)

lemma gh_basename: "toLowerCase (basename False ''gh'') = ''gh''"
  by (simp add: toLowerCase_def basename_def strip_drive_def is_sep_def lower_char_def)


lemma expand_no_dollar: "DOLLAR \<notin> set rep \<Longrightarrow> expand m b a rep = rep"
  by (induction m b a rep rule: expand.induct) auto

lemma replace_from_no_brace: "CHR ''{'' \<notin> set s \<Longrightarrow> replace_from rep b s = s"
  by (induction s arbitrary: b) (auto simp: PROMPT_MARKER_def)

lemma replaceAll_prompt_no_brace: "CHR ''{'' \<notin> set s \<Longrightarrow> replaceAll_prompt rep s = s"
  by (simp add: replaceAll_prompt_def replace_from_no_brace)

lemma replaceAll_prompt_marker:
  "DOLLAR \<notin> set rep \<Longrightarrow> replaceAll_prompt rep ''{prompt}'' = rep"
  by (simp add: replaceAll_prompt_def PROMPT_MARKER_def expand_no_dollar)

lemma config_with_command: "command (config_with c Codex) = c"
  by (simp add: config_with_def)

theorem buildCommand_template_checks_witness:
  "buildCommand sample_env (Some (config_with no_marker_command)) Codex ''write tests'' Plan
       ''gpt-5.3-codex'' None = Inl (MissingPromptPlaceholder Codex) \<and>
   buildCommand sample_env (Some (config_with custom_command)) Codex ''write tests'' Plan
       ''gpt-5.3-codex'' None
     = Inr [''gh'', ''copilot'', ''suggest'', ''write tests'' @ PROMPT_SUFFIX, ''--output'', ''json'']"
proof -
  have a1: "trim (command (config_with no_marker_command Codex)) \<noteq> []"
    by (simp add: config_with_command trim_no_marker) (simp add: no_marker_command_def)
  have a2: "splitCommandTemplate (trim (command (config_with no_marker_command Codex)))
              = Inr [''gh'', ''copilot'', ''suggest'', ''--output'', ''json'']"
    by (simp add: config_with_command trim_no_marker split_no_marker)
  have a3: "\<not> list_ex (\<lambda>part. str_includes part PROMPT_MARKER)
                [''gh'', ''copilot'', ''suggest'', ''--output'', ''json'']"
    by (simp add: PROMPT_MARKER_def)
  have b1: "trim (command (config_with custom_command Codex)) \<noteq> []"
    by (simp add: config_with_command trim_custom) (simp add: custom_command_def)
  have b2: "splitCommandTemplate (trim (command (config_with custom_command Codex)))
              = Inr [''gh'', ''copilot'', ''suggest'', ''{prompt}'', ''--output'', ''json'']"
    by (simp add: config_with_command trim_custom split_custom)
  have b3: "list_ex (\<lambda>part. str_includes part PROMPT_MARKER)
              [''gh'', ''copilot'', ''suggest'', ''{prompt}'', ''--output'', ''json'']"
    by (simp add: PROMPT_MARKER_def)
  define fpv where "fpv = ''write tests'' @ PROMPT_SUFFIX"
  have fp: "full_prompt Codex Plan ''write tests'' = fpv"
    by (simp add: full_prompt_def fpv_def)
  have nd: "DOLLAR \<notin> set fpv"
    by (simp add: PROMPT_SUFFIX_def fpv_def)
  have sub: "map (replaceAll_prompt (full_prompt Codex Plan ''write tests''))
               [''gh'', ''copilot'', ''suggest'', ''{prompt}'', ''--output'', ''json'']
             = [''gh'', ''copilot'', ''suggest'', fpv, ''--output'', ''json'']"
    unfolding fp by (simp add: replaceAll_prompt_no_brace replaceAll_prompt_marker[OF nd])
  have b4: "\<not> isCompatibleAgentCli (win32 sample_env) Codex
               (map (replaceAll_prompt (full_prompt Codex Plan ''write tests''))
                  [''gh'', ''copilot'', ''suggest'', ''{prompt}'', ''--output'', ''json''])"
    unfolding sub by (simp add: isCompatibleAgentCli_def sample_env_def gh_basename)
  show ?thesis
    using buildCommand_template_checks[where cfg = "config_with no_marker_command" and t = Codex
        and env = sample_env and p = "''write tests''" and md = Plan
        and mdl = "''gpt-5.3-codex''" and c = None, OF a1 a2]
      buildCommand_template_checks[where cfg = "config_with custom_command" and t = Codex
        and env = sample_env and p = "''write tests''" and md = Plan
        and mdl = "''gpt-5.3-codex''" and c = None, OF b1 b2]
      a3 b3 b4 sub
    by (simp add: fpv_def)
qed

text \<open>
  The claim C6 as stated covers every template that lacks the marker. This override
  lacks it and has a quote that is never closed: \<^verbatim>\<open>buildCommand\<close> fails inside
  \<^verbatim>\<open>splitCommandTemplate\<close>, before the marker is looked for, and the message of that
  error names neither the agent kind nor the marker.
\<close>

theorem unterminated_template_error:
  "\<not> str_includes unterminated_command PROMPT_MARKER \<and>
   buildCommand sample_env (Some (config_with unterminated_command)) Codex ''write tests'' Plan
       ''gpt-5.3-codex'' None = Inl (UnterminatedQuote unterminated_command) \<and>
   error_message (UnterminatedQuote unterminated_command)
     = Some (''Unterminated quote in command template: '' @ unterminated_command) \<and>
   \<not> str_includes (''Unterminated quote in command template: '' @ unterminated_command)
        (agent_type_name Codex) \<and>
   \<not> str_includes (''Unterminated quote in command template: '' @ unterminated_command)
        PROMPT_MARKER"
proof -
  have 1: "\<not> str_includes unterminated_command PROMPT_MARKER"
    by (simp add: unterminated_command_def PROMPT_MARKER_def)
  have ne: "unterminated_command \<noteq> []" by (simp add: unterminated_command_def)
  have 2: "buildCommand sample_env (Some (config_with unterminated_command)) Codex ''write tests''
             Plan ''gpt-5.3-codex'' None = Inl (UnterminatedQuote unterminated_command)"
    by (simp add: buildCommand_def Let_def config_with_command trim_unterminated ne split_unterminated)
  have 3: "\<not> str_includes (''Unterminated quote in command template: '' @ unterminated_command)
              (agent_type_name Codex)"
    by (simp add: unterminated_command_def)
  have 4: "\<not> str_includes (''Unterminated quote in command template: '' @ unterminated_command)
              PROMPT_MARKER"
    by (simp add: unterminated_command_def PROMPT_MARKER_def)
  show ?thesis using 1 2 3 4 by simp
qed

section \<open>Theorems: the lifecycle manager\<close>

lemma same_os_refl [simp]: "same_os w w"
  by (simp add: same_os_def)

lemma same_os_trans: "same_os w w1 \<Longrightarrow> same_os w1 w2 \<Longrightarrow> same_os w w2"
  by (simp add: same_os_def)

lemma same_os_saveMeta [simp]: "same_os w (saveMeta a w)"
  by (simp add: same_os_def)

lemma same_os_disk [simp]: "same_os w (w\<lparr>disk := d\<rparr>)"
  by (simp add: same_os_def)

lemma same_os_update: "same_os w (snd (updateStatusFromProcess env a w))"
  by (simp add: same_os_def)

lemma same_os_refresh: "same_os w (snd (refresh env a w))"
  by (simp add: refresh_def same_os_update)

lemma same_os_refresh_all: "same_os w (snd (refresh_all env ags w))"
proof (induction ags arbitrary: w)
  case Nil
  then show ?case by simp
next
  case (Cons ka ags)
  obtain k a where ka: "ka = (k, a)" by (cases ka)
  obtain a' w1 where r: "refresh env a w = (a', w1)" by (cases "refresh env a w")
  have 1: "same_os w w1" using same_os_refresh[of w env a] r by simp
  have 2: "same_os w1 (snd (refresh_all env ags w1))" by (rule Cons.IH)
  obtain rest' w2 where ra: "refresh_all env ags w1 = (rest', w2)"
    by (cases "refresh_all env ags w1")
  show ?case using same_os_trans[OF 1 2] ka r ra by simp
qed

lemma same_os_listAll: "same_os (snd s) (snd (snd (listAll env s)))"
proof -
  obtain m w where s: "s = (m, w)" by (cases s)
  obtain ags w' where r: "refresh_all env (agents m) w = (ags, w')"
    by (cases "refresh_all env (agents m) w")
  show ?thesis using same_os_refresh_all[of w env "agents m"] s r by (simp add: listAll_def)
qed

lemma same_os_listRunning: "same_os (snd s) (snd (snd (listRunning env s)))"
proof -
  obtain all s' where r: "listAll env s = (all, s')" by (cases "listAll env s")
  show ?thesis using same_os_listAll[of s env] r by (simp add: listRunning_def)
qed

lemma same_os_listCompleted: "same_os (snd s) (snd (snd (listCompleted env s)))"
proof -
  obtain all s' where r: "listAll env s = (all, s')" by (cases "listAll env s")
  show ?thesis using same_os_listAll[of s env] r by (simp add: listCompleted_def)
qed

lemma same_os_load_entry: "same_os (snd s) (snd (load_entry env c s e))"
proof -
  obtain m w where s: "s = (m, w)" by (cases s)
  show ?thesis
  proof (cases "loadFromDisk w e")
    case None
    then show ?thesis using s by (simp add: load_entry_def)
  next
    case (Some agent)
    obtain a' w' where u: "updateStatusFromProcess env agent w = (a', w')"
      by (cases "updateStatusFromProcess env agent w")
    have "same_os w w'" using same_os_update[of w env agent] u by simp
    then show ?thesis using s Some u by (simp add: load_entry_def)
  qed
qed

lemma same_os_foldl:
  assumes "\<And>s x. same_os (snd s) (snd (f s x))"
  shows "same_os (snd s) (snd (foldl f s xs))"
proof (induction xs arbitrary: s)
  case Nil
  then show ?case by simp
next
  case (Cons x xs)
  show ?case using same_os_trans[OF assms[of s x] Cons.IH[of "f s x"]] by simp
qed

lemma loadExistingAgents_scans:
  "readdir_calls (snd (loadExistingAgents env s)) = readdir_calls (snd s) + 1"
proof -
  obtain m w where s: "s = (m, w)" by (cases s)
  let ?w1 = "w\<lparr>readdir_calls := readdir_calls w + 1\<rparr>"
  have "same_os (snd (m, ?w1)) (snd (foldl (load_entry env c) (m, ?w1) es))" for c es
    by (rule same_os_foldl) (rule same_os_load_entry)
  then show ?thesis using s by (simp add: loadExistingAgents_def Let_def same_os_def)
qed

lemma initialize_scans: "readdir_calls (snd (initialize env s)) = readdir_calls (snd s) + 1"
  by (cases s) (simp add: initialize_def Let_def loadExistingAgents_scans)

lemma loadExistingAgents_os:
  "alive (snd (loadExistingAgents env s)) = alive (snd s) \<and>
   now (snd (loadExistingAgents env s)) = now (snd s)"
proof -
  obtain m w where s: "s = (m, w)" by (cases s)
  let ?w1 = "w\<lparr>readdir_calls := readdir_calls w + 1\<rparr>"
  have "same_os (snd (m, ?w1)) (snd (foldl (load_entry env c) (m, ?w1) es))" for c es
    by (rule same_os_foldl) (rule same_os_load_entry)
  then show ?thesis using s by (simp add: loadExistingAgents_def Let_def same_os_def)
qed

lemma get_agent_scans:
  "readdir_calls (snd (snd (get_agent env i s))) = readdir_calls (snd s) + 1"
proof -
  obtain m w where i: "initialize env s = (m, w)" by (cases "initialize env s")
  have w: "readdir_calls w = readdir_calls (snd s) + 1" using initialize_scans[of env s] i by simp
  have r: "readdir_calls (snd (refresh env a w)) = readdir_calls w" for a
    using same_os_refresh[of w env a] by (simp add: same_os_def)
  show ?thesis
  proof (cases "case map_of (agents m) i of Some a \<Rightarrow> Some a | None \<Rightarrow> loadFromDisk w i")
    case None
    then show ?thesis unfolding get_agent_def i using w by simp
  next
    case (Some a)
    obtain a' w' where rr: "refresh env a w = (a', w')" by (cases "refresh env a w")
    then show ?thesis unfolding get_agent_def i using w r[of a] Some by simp
  qed
qed

lemma stop_scans:
  "readdir_calls (snd (snd (stop env i s))) = readdir_calls (snd s) + 1"
proof -
  obtain m w where i: "initialize env s = (m, w)" by (cases "initialize env s")
  have w: "readdir_calls w = readdir_calls (snd s) + 1" using initialize_scans[of env s] i by simp
  show ?thesis
  proof (cases "map_of (agents m) i")
    case None
    then show ?thesis unfolding stop_def i using w by simp
  next
    case (Some a)
    then show ?thesis unfolding stop_def i using w by (simp add: stop_agent_def Let_def)
  qed
qed

lemma same_os_remove_agent: "same_os (snd s) (snd (remove_agent s a))"
  by (cases s) (simp add: remove_agent_def)

lemma same_os_cleanupOldAgents: "same_os (snd s) (snd (cleanupOldAgents env s))"
proof -
  obtain completed s' where l: "listCompleted env s = (completed, s')"
    by (cases "listCompleted env s")
  have 1: "same_os (snd s) (snd s')" using same_os_listCompleted[of s env] l by simp
  have 2: "same_os (snd s') (snd (foldl remove_agent s' xs))" for xs
    by (rule same_os_foldl) (rule same_os_remove_agent)
  show ?thesis
    unfolding cleanupOldAgents_def l using 1 same_os_trans[OF 1 2] by (simp add: Let_def)
qed

lemma same_os_make_agent_dir: "same_os w (make_agent_dir env i w)"
  by (simp add: make_agent_dir_def Let_def)

lemma same_os_launch_agent:
  "same_os (snd s) (snd (snd (launch_agent env os tn t p c md mdl ps wd s)))"
proof -
  obtain m w where s: "s = (m, w)" by (cases s)
  have rm: "same_os w (snd (remove_agent (m', make_agent_dir env i w) a))" for m' i a
  proof -
    have 1: "same_os w (make_agent_dir env i w)" by (rule same_os_make_agent_dir)
    have 2: "same_os (make_agent_dir env i w) (snd (remove_agent (m', make_agent_dir env i w) a))"
      using same_os_remove_agent[of "(m', make_agent_dir env i w)" a] by simp
    show ?thesis using same_os_trans[OF 1 2] .
  qed
  have cl: "same_os w (snd (cleanupOldAgents env (m', saveMeta a (make_agent_dir env i w))))" for m' a i
  proof -
    have 1: "same_os w (make_agent_dir env i w)" by (rule same_os_make_agent_dir)
    have 2: "same_os (make_agent_dir env i w) (saveMeta a (make_agent_dir env i w))"
      by (rule same_os_saveMeta)
    have 3: "same_os (saveMeta a (make_agent_dir env i w))
               (snd (cleanupOldAgents env (m', saveMeta a (make_agent_dir env i w))))"
      using same_os_cleanupOldAgents[of "(m', saveMeta a (make_agent_dir env i w))" env] by simp
    show ?thesis using same_os_trans[OF same_os_trans[OF 1 2] 3] .
  qed
  show ?thesis
    unfolding launch_agent_def s using rm cl
    by (simp add: Let_def split: sum.splits option.splits)
qed

lemma spawn_scans:
  "readdir_calls (snd (snd (spawn env os tn t p c md ef ps wd mdl s))) = readdir_calls (snd s) + 1"
proof -
  let ?s1 = "initialize env s"
  obtain running s2 where l: "listRunning env ?s1 = (running, s2)" by (cases "listRunning env ?s1")
  have 1: "readdir_calls (snd s2) = readdir_calls (snd s) + 1"
    using same_os_listRunning[of ?s1 env] l initialize_scans[of env s] by (simp add: same_os_def)
  have 2: "readdir_calls (snd (snd (launch_agent env os tn t p c x y ps wd s2))) = readdir_calls (snd s2)"
    for x y
    using same_os_launch_agent[of s2 env os tn t p c x y ps wd] by (simp add: same_os_def)
  show ?thesis
    unfolding spawn_def Let_def l using 1 2 by simp
qed

text \<open>
  Claim C5 asks that the startup reconciliation (the scan of the store directory by
  \<^verbatim>\<open>loadExistingAgents\<close>) runs once per manager, later triggers being answered from
  a memoized outcome. In this code \<^verbatim>\<open>initialize\<close> keeps no such outcome: the
  constructor scans once, and every \<^verbatim>\<open>get\<close>, \<^verbatim>\<open>stop\<close> and \<^verbatim>\<open>spawn\<close> after it
  scans the store again.
\<close>

theorem every_operation_scans_the_store_again:
  "readdir_calls (snd (new_AgentManager env ma mc dm fc ca cfg w)) = readdir_calls w + 1 \<and>
   readdir_calls (snd (snd (get_agent env i (new_AgentManager env ma mc dm fc ca cfg w))))
     = readdir_calls w + 2 \<and>
   readdir_calls (snd (snd (stop env i (new_AgentManager env ma mc dm fc ca cfg w))))
     = readdir_calls w + 2 \<and>
   readdir_calls (snd (snd (spawn env os tn t p c md ef ps wd mdl
       (new_AgentManager env ma mc dm fc ca cfg w))))
     = readdir_calls w + 2"
proof -
  have n: "readdir_calls (snd (new_AgentManager env ma mc dm fc ca cfg w)) = readdir_calls w + 1"
    unfolding new_AgentManager_def by (simp add: initialize_scans)
  show ?thesis
    using n by (simp add: get_agent_scans stop_scans spawn_scans)
qed

lemma dir_ids_update:
  "set (concat (map dir_ids (AList.update k v xs)))
     \<subseteq> set (concat (map dir_ids xs)) \<union> set (dir_ids (k, v))"
  by (induction xs) auto

lemma dir_ids_delete:
  "set (concat (map dir_ids (AList.delete k xs))) \<subseteq> set (concat (map dir_ids xs))"
  by (induction xs) auto

lemma agent_ids_update:
  "set (map (\<lambda>(k, a). agentId a) (AList.update k b ags))
     \<subseteq> insert (agentId b) (set (map (\<lambda>(k, a). agentId a) ags))"
  by (induction ags) auto

lemma agent_ids_delete:
  "set (map (\<lambda>(k, a). agentId a) (AList.delete k ags)) \<subseteq> set (map (\<lambda>(k, a). agentId a) ags)"
  by (induction ags) auto

lemma dirs_in_disk_ids: "set (map fst (disk w)) \<subseteq> disk_ids w"
  unfolding disk_ids_def by (induction "disk w") auto

lemma disk_ids_saveMeta: "disk_ids (saveMeta a w) \<subseteq> insert (agentId a) (disk_ids w)"
proof -
  define d where "d = (case map_of (disk w) (agentId a) of Some d \<Rightarrow> d
                        | None \<Rightarrow> \<lparr>meta_json = None, stdout_log = None\<rparr>)"
  have 1: "disk (saveMeta a w) = AList.update (agentId a) (d\<lparr>meta_json := Some (toMeta a)\<rparr>) (disk w)"
    by (simp add: saveMeta_def Let_def d_def)
  have 2: "set (dir_ids (agentId a, d\<lparr>meta_json := Some (toMeta a)\<rparr>)) = {agentId a}"
    by (simp add: toMeta_def)
  show ?thesis
    unfolding disk_ids_def 1
    using dir_ids_update[of "agentId a" "d\<lparr>meta_json := Some (toMeta a)\<rparr>" "disk w"]
    unfolding 2 by auto
qed

lemma updateStatusFromProcess_agentId [simp]:
  "agentId (fst (updateStatusFromProcess env a w)) = agentId a"
  using updateStatusFromProcess_identity[of a env w] by (simp add: same_identity_def)

lemma updateStatusFromProcess_world_cases:
  "snd (updateStatusFromProcess env a w) = w \<or>
   snd (updateStatusFromProcess env a w) = saveMeta (fst (updateStatusFromProcess env a w)) w"
  by (simp add: updateStatusFromProcess_def Let_def)

lemma disk_ids_updateStatusFromProcess:
  "disk_ids (snd (updateStatusFromProcess env a w)) \<subseteq> insert (agentId a) (disk_ids w)"
  using updateStatusFromProcess_world_cases[of env a w]
    disk_ids_saveMeta[of "fst (updateStatusFromProcess env a w)" w]
  by auto

lemma refresh_agentId [simp]: "agentId (fst (refresh env a w)) = agentId a"
  by (simp add: refresh_def)

lemma disk_ids_refresh: "disk_ids (snd (refresh env a w)) \<subseteq> insert (agentId a) (disk_ids w)"
  using disk_ids_updateStatusFromProcess[of env "readNewEvents env (now w) (log_of w a) a" w]
  by (simp add: refresh_def)

lemma refresh_all_ids:
  "map (\<lambda>(k, a). agentId a) (fst (refresh_all env ags w)) = map (\<lambda>(k, a). agentId a) ags \<and>
   disk_ids (snd (refresh_all env ags w)) \<subseteq> disk_ids w \<union> set (map (\<lambda>(k, a). agentId a) ags)"
proof (induction ags arbitrary: w)
  case Nil
  then show ?case by simp
next
  case (Cons ka ags)
  obtain k a where ka: "ka = (k, a)" by (cases ka)
  obtain a' w1 where r: "refresh env a w = (a', w1)" by (cases "refresh env a w")
  obtain rest' w2 where ra: "refresh_all env ags w1 = (rest', w2)"
    by (cases "refresh_all env ags w1")
  have 1: "agentId a' = agentId a" using refresh_agentId[of env a w] r by simp
  have 2: "disk_ids w1 \<subseteq> insert (agentId a) (disk_ids w)" using disk_ids_refresh[of env a w] r by simp
  have 3: "map (\<lambda>(k, a). agentId a) rest' = map (\<lambda>(k, a). agentId a) ags"
    and 4: "disk_ids w2 \<subseteq> disk_ids w1 \<union> set (map (\<lambda>(k, a). agentId a) ags)"
    using Cons.IH[of w1] ra by simp_all
  show ?case using ka r ra 1 2 3 4 by auto
qed

lemma known_ids_listAll: "known_ids (snd (listAll env s)) \<subseteq> known_ids s"
proof -
  obtain m w where s: "s = (m, w)" by (cases s)
  obtain ags w' where r: "refresh_all env (agents m) w = (ags, w')"
    by (cases "refresh_all env (agents m) w")
  show ?thesis
    using refresh_all_ids[of env "agents m" w] s r
    by (auto simp: listAll_def known_ids_def memory_ids_def)
qed

lemma known_ids_listRunning: "known_ids (snd (listRunning env s)) \<subseteq> known_ids s"
proof -
  obtain all s' where r: "listAll env s = (all, s')" by (cases "listAll env s")
  show ?thesis using known_ids_listAll[of env s] r by (simp add: listRunning_def)
qed

lemma loadFromDisk_known: "loadFromDisk w e = Some a \<Longrightarrow> agentId a \<in> disk_ids w"
proof -
  assume l: "loadFromDisk w e = Some a"
  then obtain d m where d: "map_of (disk w) e = Some d" and m: "meta_json d = Some m"
    and a: "a = fromMeta m"
    by (auto simp: loadFromDisk_def split: option.splits)
  have "(e, d) \<in> set (disk w)" using d by (rule map_of_SomeD)
  then have "set (dir_ids (e, d)) \<subseteq> disk_ids w"
    unfolding disk_ids_def by (simp only: set_concat set_map) blast
  then show ?thesis using m a by (simp add: fromMeta_def)
qed

lemma known_ids_load_entry: "known_ids (load_entry env c s e) \<subseteq> known_ids s"
proof -
  obtain m w where s: "s = (m, w)" by (cases s)
  show ?thesis
  proof (cases "loadFromDisk w e")
    case None
    then show ?thesis using s by (simp add: load_entry_def)
  next
    case (Some agent)
    obtain a' w' where u: "updateStatusFromProcess env agent w = (a', w')"
      by (cases "updateStatusFromProcess env agent w")
    have k: "agentId agent \<in> disk_ids w" using Some by (rule loadFromDisk_known)
    have 1: "agentId a' = agentId agent" using updateStatusFromProcess_agentId[of env agent w] u by simp
    have 2: "disk_ids w' \<subseteq> disk_ids w"
      using disk_ids_updateStatusFromProcess[of env agent w] u k by auto
    have 3: "memory_ids (m\<lparr>agents := AList.update e a' (agents m)\<rparr>) \<subseteq> insert (agentId agent) (memory_ids m)"
      using agent_ids_update[of e a' "agents m"] 1 by (simp add: memory_ids_def)
    have 4: "disk_ids (w\<lparr>disk := AList.delete e (disk w)\<rparr>) \<subseteq> disk_ids w"
      using dir_ids_delete[of e "disk w"] by (simp add: disk_ids_def)
    show ?thesis
      using s Some u k 2 3 4 by (auto simp: load_entry_def known_ids_def)
  qed
qed

lemma known_ids_foldl_load_entry:
  "known_ids (foldl (load_entry env c) s es) \<subseteq> known_ids s"
proof (induction es arbitrary: s)
  case Nil
  then show ?case by simp
next
  case (Cons e es)
  show ?case using Cons.IH[of "load_entry env c s e"] known_ids_load_entry[of env c s e] by auto
qed

lemma known_ids_initialize: "known_ids (initialize env s) \<subseteq> known_ids s"
proof -
  obtain m w where s: "s = (m, w)" by (cases s)
  have k: "known_ids (m\<lparr>agentConfigs := x, effortModelMap := y\<rparr>, w\<lparr>readdir_calls := n\<rparr>) = known_ids (m, w)"
    for x y n
    by (simp add: known_ids_def disk_ids_def memory_ids_def)
  show ?thesis
    unfolding initialize_def loadExistingAgents_def s Let_def
    using known_ids_foldl_load_entry k by (simp add: k) (metis k)
qed

lemma load_entry_maxConcurrent:
  "maxConcurrent (fst (load_entry env c s e)) = maxConcurrent (fst s)"
proof -
  obtain m w where s: "s = (m, w)" by (cases s)
  show ?thesis
  proof (cases "loadFromDisk w e")
    case None
    then show ?thesis using s by (simp add: load_entry_def)
  next
    case (Some agent)
    obtain a' w' where u: "updateStatusFromProcess env agent w = (a', w')"
      by (cases "updateStatusFromProcess env agent w")
    show ?thesis using s Some u by (simp add: load_entry_def)
  qed
qed

lemma foldl_load_entry_maxConcurrent:
  "maxConcurrent (fst (foldl (load_entry env c) s es)) = maxConcurrent (fst s)"
  by (induction es arbitrary: s) (simp_all add: load_entry_maxConcurrent)

lemma initialize_maxConcurrent: "maxConcurrent (fst (initialize env s)) = maxConcurrent (fst s)"
  by (cases s) (simp add: initialize_def loadExistingAgents_def Let_def foldl_load_entry_maxConcurrent)

lemma listRunning_maxConcurrent:
  "maxConcurrent (fst (snd (listRunning env s))) = maxConcurrent (fst s)"
proof -
  obtain m w where s: "s = (m, w)" by (cases s)
  obtain ags w' where r: "refresh_all env (agents m) w = (ags, w')"
    by (cases "refresh_all env (agents m) w")
  show ?thesis using s r by (simp add: listRunning_def listAll_def)
qed

lemma buildCommand_errors:
  "buildCommand env cfg t p md mdl c \<noteq> Inl (ConcurrencyLimit n)"
  by (auto simp: buildCommand_def Let_def splitCommandTemplate_def split: sum.splits prod.splits)

lemma launch_agent_not_limit:
  "fst (launch_agent env os tn t p c md mdl ps wd s) \<noteq> Inl (ConcurrencyLimit n)"
proof -
  obtain m w where s: "s = (m, w)" by (cases s)
  have 1: "checkCliAvailable os t \<noteq> Inl (ConcurrencyLimit n)"
    by (simp add: checkCliAvailable_def split: list.splits option.splits)
  have 2: "resolve_cwd os c \<noteq> Inl (ConcurrencyLimit n)"
    by (simp add: resolve_cwd_def split: option.splits)
  show ?thesis
    unfolding launch_agent_def s using 1 2 buildCommand_errors
    by (auto simp: Let_def split: sum.splits option.splits)
qed

lemma isProcessAlive_cong: "alive w' = alive w \<Longrightarrow> isProcessAlive w' a = isProcessAlive w a"
  by (simp add: isProcessAlive_def split: option.splits)

lemma updateStatusFromProcess_running_alive:
  assumes "status (fst (updateStatusFromProcess env a w)) = RUNNING" and "pid_set (pid a)"
  shows "isProcessAlive w a"
proof (rule ccontr)
  assume d: "\<not> isProcessAlive w a"
  have "status (fst (updateStatusFromProcess env a w)) \<noteq> RUNNING"
    using d assms(2) readNewEvents_settled[of a env "now w" "log_of w a"]
    by (simp add: updateStatusFromProcess_def Let_def)
  then show False using assms(1) by simp
qed

lemma refresh_pid [simp]: "pid (fst (refresh env a w)) = pid a"
  using updateStatusFromProcess_identity[of "readNewEvents env (now w) (log_of w a) a" env w]
  by (simp add: refresh_def same_identity_def)

lemma refresh_running_alive:
  assumes "status (fst (refresh env a w)) = RUNNING" and "pid_set (pid a)"
  shows "isProcessAlive w a"
proof -
  let ?b = "readNewEvents env (now w) (log_of w a) a"
  have "isProcessAlive w ?b"
    using assms by (intro updateStatusFromProcess_running_alive[of env ?b w]) (simp_all add: refresh_def)
  then show ?thesis by (simp add: isProcessAlive_def)
qed

lemma refresh_all_running_alive:
  "(k, b) \<in> set (fst (refresh_all env ags w)) \<Longrightarrow> status b = RUNNING \<Longrightarrow> pid_set (pid b) \<Longrightarrow>
   isProcessAlive w b"
proof (induction ags arbitrary: w)
  case Nil
  then show ?case by simp
next
  case (Cons ka ags)
  obtain k0 a where ka: "ka = (k0, a)" by (cases ka)
  obtain a' w1 where r: "refresh env a w = (a', w1)" by (cases "refresh env a w")
  obtain rest' w2 where ra: "refresh_all env ags w1 = (rest', w2)"
    by (cases "refresh_all env ags w1")
  have al: "alive w1 = alive w" using same_os_refresh[of w env a] r by (simp add: same_os_def)
  from Cons.prems(1) have "(k, b) = (k0, a') \<or> (k, b) \<in> set rest'"
    using ka r ra by simp
  then show ?case
  proof
    assume "(k, b) = (k0, a')"
    then have b: "b = fst (refresh env a w)" using r by simp
    have p: "pid b = pid a" unfolding b by simp
    have "isProcessAlive w a"
      using Cons.prems(2,3) refresh_running_alive[of env a w] b p by simp
    then show ?thesis using p by (simp add: isProcessAlive_def)
  next
    assume "(k, b) \<in> set rest'"
    then have "isProcessAlive w1 b"
      using Cons.IH[of w1] ra Cons.prems(2,3) by simp
    then show ?thesis using isProcessAlive_cong[OF al] by simp
  qed
qed

lemma initialize_alive: "alive (snd (initialize env s)) = alive (snd s)"
  by (cases s) (simp add: initialize_def Let_def loadExistingAgents_os)

lemma reconciled_running_alive:
  assumes "a \<in> set (reconciled env s)" and "status a = RUNNING" and "pid_set (pid a)"
  shows "isProcessAlive (snd s) a"
proof -
  obtain m w where i: "initialize env s = (m, w)" by (cases "initialize env s")
  obtain ags w' where r: "refresh_all env (agents m) w = (ags, w')"
    by (cases "refresh_all env (agents m) w")
  have "a \<in> set (map snd ags)"
    using assms(1) by (simp add: reconciled_def listAll_def i r)
  then obtain k where "(k, a) \<in> set (fst (refresh_all env (agents m) w))"
    using r by auto
  then have "isProcessAlive w a" using assms(2,3) by (rule refresh_all_running_alive)
  moreover have "alive w = alive (snd s)" using initialize_alive[of env s] i by simp
  ultimately show ?thesis using isProcessAlive_cong[of w "snd s" a] by simp
qed

lemma listRunning_reconciled:
  "listRunning env (initialize env s) =
     (filter (\<lambda>a. status a = RUNNING) (reconciled env s), snd (listAll env (initialize env s)))"
  by (simp add: listRunning_def reconciled_def case_prod_unfold)

lemma spawn_refused:
  assumes "maxConcurrent (fst s) \<le> int (running_count env s)"
  shows "spawn env os tn t p c md ef ps wd mdl s
           = (Inl (ConcurrencyLimit (maxConcurrent (fst s))), snd (listAll env (initialize env s)))"
proof -
  have mc: "maxConcurrent (fst (snd (listAll env (initialize env s)))) = maxConcurrent (fst s)"
    using listRunning_maxConcurrent[of env "initialize env s"]
    by (simp add: initialize_maxConcurrent listRunning_reconciled)
  show ?thesis
    unfolding spawn_def Let_def listRunning_reconciled using mc assms
    by (simp add: running_count_def)
qed


subsection \<open>Stores of one record\<close>

lemma loadExistingAgents_one:
  "disk w = [(k, d)] \<Longrightarrow>
   loadExistingAgents env (m, w) =
     load_entry env (now w - cleanupAgeDays m * 24 * 60 * 60 * 1000)
       (m, w\<lparr>readdir_calls := readdir_calls w + 1\<rparr>) k"
  by (simp add: loadExistingAgents_def Let_def)

lemma load_entry_loaded:
  assumes "loadFromDisk w k = Some a"
    and "\<not> (case completedAt a of Some t \<Rightarrow> t < cutoff | None \<Rightarrow> False)"
    and "filterByCwd m = None"
  shows "load_entry env cutoff (m, w) k =
           (m\<lparr>agents := AList.update k (fst (updateStatusFromProcess env a w)) (agents m)\<rparr>,
            snd (updateStatusFromProcess env a w))"
  using assms by (simp add: load_entry_def case_prod_unfold)

lemma initialize_one_record:
  assumes d: "disk w = [(k, d)]" and mt: "meta_json d = Some mt"
    and f: "filterByCwd m = None"
    and c: "\<not> (case m_completed_at mt of
                  Some t \<Rightarrow> t < now w - cleanupAgeDays m * 24 * 60 * 60 * 1000 | None \<Rightarrow> False)"
    and cfg: "constructorAgentConfigs m = None"
  shows "initialize env (m, w) =
     (m\<lparr>agentConfigs := Some loadDefaultAgentConfigs,
         effortModelMap := Some (resolveEffortModelMap loadDefaultAgentConfigs),
         agents := AList.update k
           (fst (updateStatusFromProcess env (fromMeta mt) (w\<lparr>readdir_calls := readdir_calls w + 1\<rparr>)))
           (agents m)\<rparr>,
      snd (updateStatusFromProcess env (fromMeta mt) (w\<lparr>readdir_calls := readdir_calls w + 1\<rparr>)))"
proof -
  let ?m1 = "m\<lparr>agentConfigs := Some loadDefaultAgentConfigs,
         effortModelMap := Some (resolveEffortModelMap loadDefaultAgentConfigs)\<rparr>"
  let ?w1 = "w\<lparr>readdir_calls := readdir_calls w + 1\<rparr>"
  have i: "initialize env (m, w) = loadExistingAgents env (?m1, w)"
    by (simp add: initialize_def cfg Let_def)
  have o: "loadExistingAgents env (?m1, w)
             = load_entry env (now w - cleanupAgeDays ?m1 * 24 * 60 * 60 * 1000) (?m1, ?w1) k"
    using d by (rule loadExistingAgents_one)
  have l: "loadFromDisk ?w1 k = Some (fromMeta mt)"
    by (simp add: loadFromDisk_def d mt)
  have c': "\<not> (case completedAt (fromMeta mt) of
                  Some t \<Rightarrow> t < now w - cleanupAgeDays ?m1 * 24 * 60 * 60 * 1000 | None \<Rightarrow> False)"
    using c by (cases "m_completed_at mt") (simp_all add: fromMeta_def)
  have f': "filterByCwd ?m1 = None" using f by simp
  show ?thesis
    unfolding i o load_entry_loaded[OF l c' f'] by simp
qed

lemma live_agent_reload: "fromMeta (toMeta live_agent) = live_agent"
  by (simp add: fromMeta_def toMeta_def live_agent_def sample_agent_def new_AgentProcess_def
      or_null_def AgentStatus_index_def)

lemma live_agent_fields:
  "agentId live_agent = ''agent-1''" "pid live_agent = Some 4242" "status live_agent = RUNNING"
  "completedAt live_agent = None" "cwd live_agent = None"
  by (simp_all add: live_agent_def sample_agent_def new_AgentProcess_def)

lemma busy_update: "disk w = disk busy_world \<Longrightarrow> alive w = alive busy_world \<Longrightarrow>
   updateStatusFromProcess env live_agent w = (live_agent, w)"
  by (simp add: updateStatusFromProcess_def log_of_def busy_world_def live_agent_fields
      pid_set_def isProcessAlive_def)

lemma live_refresh:
  assumes "log_of w live_agent = None" and "alive w = alive busy_world"
  shows "refresh env live_agent w = (live_agent, w)"
  using assms
  by (simp add: refresh_def updateStatusFromProcess_def busy_world_def live_agent_fields
      pid_set_def isProcessAlive_def)

lemma busy_initialize_holding:
  "initialize env ((manager_with n)\<lparr>agents := ags\<rparr>, busy_world) =
     ((manager_with n)\<lparr>agentConfigs := Some loadDefaultAgentConfigs,
        effortModelMap := Some (resolveEffortModelMap loadDefaultAgentConfigs),
        agents := AList.update ''agent-1'' live_agent ags\<rparr>,
      busy_world\<lparr>readdir_calls := 1\<rparr>)"
proof -
  let ?m = "(manager_with n)\<lparr>agents := ags\<rparr>"
  have d: "disk busy_world = [(''agent-1'', \<lparr>meta_json = Some (toMeta live_agent), stdout_log = None\<rparr>)]"
    by (simp add: busy_world_def)
  have mt: "meta_json \<lparr>meta_json = Some (toMeta live_agent), stdout_log = None\<rparr>
              = Some (toMeta live_agent)" by simp
  have f: "filterByCwd ?m = None" and cfg: "constructorAgentConfigs ?m = None"
    by (simp_all add: manager_with_def)
  have c: "\<not> (case m_completed_at (toMeta live_agent) of
                  Some t \<Rightarrow> t < now busy_world - cleanupAgeDays ?m * 24 * 60 * 60 * 1000
                | None \<Rightarrow> False)"
    by (simp add: toMeta_def live_agent_fields)
  have u: "updateStatusFromProcess env live_agent (busy_world\<lparr>readdir_calls := k\<rparr>)
             = (live_agent, busy_world\<lparr>readdir_calls := k\<rparr>)" for k
    by (rule busy_update) simp_all
  have r: "readdir_calls busy_world = 0" by (simp add: busy_world_def)
  show ?thesis
    unfolding initialize_one_record[OF d mt f c cfg] live_agent_reload u
    by (simp add: manager_with_def r)
qed

lemma busy_reconciled:
  "reconciled env (manager_with n, busy_world) = [live_agent]"
  "snd (listAll env (initialize env (manager_with n, busy_world))) =
     ((manager_with n)\<lparr>agentConfigs := Some loadDefaultAgentConfigs,
        effortModelMap := Some (resolveEffortModelMap loadDefaultAgentConfigs),
        agents := [(''agent-1'', live_agent)]\<rparr>,
      busy_world\<lparr>readdir_calls := 1\<rparr>)"
proof -
  have m: "manager_with n = (manager_with n)\<lparr>agents := []\<rparr>" by (simp add: manager_with_def)
  have i: "initialize env (manager_with n, busy_world) =
     ((manager_with n)\<lparr>agentConfigs := Some loadDefaultAgentConfigs,
        effortModelMap := Some (resolveEffortModelMap loadDefaultAgentConfigs),
        agents := [(''agent-1'', live_agent)]\<rparr>,
      busy_world\<lparr>readdir_calls := 1\<rparr>)"
    by (subst m, subst busy_initialize_holding) simp
  have r: "refresh env live_agent (busy_world\<lparr>readdir_calls := k\<rparr>)
             = (live_agent, busy_world\<lparr>readdir_calls := k\<rparr>)" for k
    by (rule live_refresh) (simp_all add: log_of_def busy_world_def live_agent_fields)
  show "reconciled env (manager_with n, busy_world) = [live_agent]"
    unfolding reconciled_def i listAll_def by (simp add: r)
  show "snd (listAll env (initialize env (manager_with n, busy_world))) =
     ((manager_with n)\<lparr>agentConfigs := Some loadDefaultAgentConfigs,
        effortModelMap := Some (resolveEffortModelMap loadDefaultAgentConfigs),
        agents := [(''agent-1'', live_agent)]\<rparr>,
      busy_world\<lparr>readdir_calls := 1\<rparr>)"
    unfolding i listAll_def by (simp add: r)
qed


lemma idle_reload:
  "fromMeta (toMeta idle_agent) = idle_agent\<lparr>status := RUNNING\<rparr>"
  by (simp add: fromMeta_def toMeta_def idle_agent_def new_AgentProcess_def or_null_def
      AgentStatus_index_def)

lemma idle_initialize:
  "initialize env ((manager_with n)\<lparr>agents := ags\<rparr>, idle_world) =
     ((manager_with n)\<lparr>agentConfigs := Some loadDefaultAgentConfigs,
         effortModelMap := Some (resolveEffortModelMap loadDefaultAgentConfigs),
         agents := AList.update ''agent-1'' (idle_agent\<lparr>status := RUNNING\<rparr>) ags\<rparr>,
      idle_world\<lparr>readdir_calls := 1\<rparr>)"
proof -
  let ?m = "(manager_with n)\<lparr>agents := ags\<rparr>"
  have u: "updateStatusFromProcess env (idle_agent\<lparr>status := RUNNING\<rparr>) w
             = (idle_agent\<lparr>status := RUNNING\<rparr>, w)" for w
    by (simp add: updateStatusFromProcess_def idle_agent_def new_AgentProcess_def pid_set_def)
  have d: "disk idle_world = [(''agent-1'', \<lparr>meta_json = Some (toMeta idle_agent), stdout_log = None\<rparr>)]"
    by (simp add: idle_world_def)
  have c: "\<not> (case m_completed_at (toMeta idle_agent) of
                  Some t \<Rightarrow> t < now idle_world - cleanupAgeDays ?m * 24 * 60 * 60 * 1000
                | None \<Rightarrow> False)"
    by (simp add: toMeta_def idle_agent_def idle_world_def manager_with_def)
  have r: "readdir_calls idle_world = 0" by (simp add: idle_world_def)
  have f: "filterByCwd ?m = None" and cfg: "constructorAgentConfigs ?m = None"
    by (simp_all add: manager_with_def)
  have mt: "meta_json \<lparr>meta_json = Some (toMeta idle_agent), stdout_log = None\<rparr>
              = Some (toMeta idle_agent)" by simp
  show ?thesis
    unfolding initialize_one_record[OF d mt f c cfg] idle_reload u
    by (simp add: manager_with_def r)
qed

lemma idle_reconciled:
  "reconciled env (manager_with n, idle_world) = [idle_agent\<lparr>status := RUNNING\<rparr>]"
proof -
  have m: "manager_with n = (manager_with n)\<lparr>agents := []\<rparr>" by (simp add: manager_with_def)
  have i: "initialize env (manager_with n, idle_world) =
     ((manager_with n)\<lparr>agentConfigs := Some loadDefaultAgentConfigs,
        effortModelMap := Some (resolveEffortModelMap loadDefaultAgentConfigs),
        agents := [(''agent-1'', idle_agent\<lparr>status := RUNNING\<rparr>)]\<rparr>,
      idle_world\<lparr>readdir_calls := 1\<rparr>)"
    by (subst m, subst idle_initialize) simp
  have r: "refresh env (idle_agent\<lparr>status := RUNNING\<rparr>) w = (idle_agent\<lparr>status := RUNNING\<rparr>, w)"
    if "log_of w (idle_agent\<lparr>status := RUNNING\<rparr>) = None" for w
    using that
    by (simp add: refresh_def updateStatusFromProcess_def idle_agent_def new_AgentProcess_def
        pid_set_def)
  have lg: "log_of (idle_world\<lparr>readdir_calls := k\<rparr>) (idle_agent\<lparr>status := RUNNING\<rparr>) = None" for k
    by (simp add: log_of_def idle_world_def idle_agent_def new_AgentProcess_def)
  show ?thesis
    unfolding reconciled_def i listAll_def by (simp add: r lg)
qed

lemma ghost_fields:
  "agentId ghost_agent = ''ghost''" "pid ghost_agent = Some 999999"
  "status ghost_agent = RUNNING" "completedAt ghost_agent = None"
  "eventsCache ghost_agent = []" "startedAt ghost_agent = 1000"
  by (simp_all add: ghost_agent_def sample_agent_fields)

lemma ghost_refresh:
  assumes "map_of (disk w) ''ghost'' = None" and "alive w = alive busy_world"
  shows "refresh env ghost_agent w =
           (ghost_agent\<lparr>status := FAILED, completedAt := Some 1000\<rparr>,
            saveMeta (ghost_agent\<lparr>status := FAILED, completedAt := Some 1000\<rparr>) w)"
proof -
  have lg: "log_of w ghost_agent = None" by (simp add: log_of_def ghost_fields assms)
  have fc: "fallbackCompletion ghost_agent = 1000"
    by (simp add: fallbackCompletion_def getLatestEventTime_def ghost_fields)
  have al: "alive w 999999 = False" by (simp add: assms busy_world_def)
  show ?thesis
    unfolding refresh_def lg readNewEvents_no_log updateStatusFromProcess_def
    by (simp add: lg fc al ghost_fields pid_set_def isProcessAlive_def reapProcess_def Let_def)
qed

lemma ghost_listAll:
  "listAll env (initialize env (holding 1 ghost_agent, busy_world)) =
     ([ghost_agent\<lparr>status := FAILED, completedAt := Some 1000\<rparr>, live_agent],
      (manager_with 1)\<lparr>agentConfigs := Some loadDefaultAgentConfigs,
        effortModelMap := Some (resolveEffortModelMap loadDefaultAgentConfigs),
        agents := [(''ghost'', ghost_agent\<lparr>status := FAILED, completedAt := Some 1000\<rparr>),
                   (''agent-1'', live_agent)]\<rparr>,
      saveMeta (ghost_agent\<lparr>status := FAILED, completedAt := Some 1000\<rparr>)
        (busy_world\<lparr>readdir_calls := 1\<rparr>))"
proof -
  let ?g = "ghost_agent\<lparr>status := FAILED, completedAt := Some 1000\<rparr>"
  have h: "holding 1 ghost_agent = (manager_with 1)\<lparr>agents := [(''ghost'', ghost_agent)]\<rparr>"
    by (simp add: holding_def ghost_fields)
  have g: "refresh env ghost_agent (busy_world\<lparr>readdir_calls := k\<rparr>)
             = (?g, saveMeta ?g (busy_world\<lparr>readdir_calls := k\<rparr>))" for k
    by (rule ghost_refresh) (simp_all add: busy_world_def)
  have lg: "log_of (saveMeta ?g (busy_world\<lparr>readdir_calls := k\<rparr>)) live_agent = None" for k
    by (simp add: log_of_def saveMeta_def busy_world_def live_agent_fields ghost_fields)
  have l: "refresh env live_agent (saveMeta ?g (busy_world\<lparr>readdir_calls := k\<rparr>))
             = (live_agent, saveMeta ?g (busy_world\<lparr>readdir_calls := k\<rparr>))" for k
    using lg by (rule live_refresh) simp
  show ?thesis
    unfolding h busy_initialize_holding listAll_def
    by (simp add: g l)
qed


section \<open>Theorems: the status of a record over time\<close>

lemma forward_step_refl: "forward_step a a"
  by (simp add: forward_step_def)

lemma forward_step_settle:
  "forward_step a c \<Longrightarrow> s \<noteq> RUNNING \<Longrightarrow> forward_step a (c\<lparr>status := s, completedAt := Some t\<rparr>)"
  by (simp add: forward_step_def)

lemma readNewEvents_forward: "forward_step a (readNewEvents env nw lg a)"
  by (rule readNewEvents_preserves[where P = "forward_step a"])
     (simp_all add: forward_step_def)

lemma updateStatusFromProcess_forward: "forward_step a (fst (updateStatusFromProcess env a w))"
proof -
  let ?a1 = "readNewEvents env (now w) (log_of w a) a"
  have r: "forward_step a ?a1" by (rule readNewEvents_forward)
  have 2: "forward_step a (?a1\<lparr>status := s, completedAt := Some t\<rparr>)" if "s \<noteq> RUNNING" for s t
    using r that by (rule forward_step_settle)
  have 3: "forward_step a (?a1\<lparr>completedAt := Some t\<rparr>)" if "status a \<noteq> RUNNING" for t
    using r that by (simp add: forward_step_def)
  have 4: "status ?a1 \<noteq> RUNNING \<Longrightarrow> forward_step a ?a1" using r .
  show ?thesis
    unfolding updateStatusFromProcess_def Let_def
    using r 2 3 by (simp add: forward_step_refl)
qed

lemma initialize_now: "now (snd (initialize env s)) = now (snd s)"
  by (cases s) (simp add: initialize_def Let_def loadExistingAgents_os)

lemma stop_found:
  assumes "map_of (agents (fst (initialize env s))) i = Some c"
  shows "fst (stop env i s) = (pid_set (pid c) \<and> status c = RUNNING)"
    and "map_of (agents (fst (snd (stop env i s)))) i =
           Some (if pid_set (pid c) \<and> status c = RUNNING
                 then c\<lparr>status := STOPPED, completedAt := Some (now (snd s))\<rparr> else c)"
proof -
  obtain m w where i: "initialize env s = (m, w)" by (cases "initialize env s")
  have c: "map_of (agents m) i = Some c" using assms i by simp
  have n: "now w = now (snd s)" using initialize_now[of env s] i by simp
  show "fst (stop env i s) = (pid_set (pid c) \<and> status c = RUNNING)"
    unfolding stop_def i by (simp add: c stop_agent_def Let_def)
  show "map_of (agents (fst (snd (stop env i s)))) i =
           Some (if pid_set (pid c) \<and> status c = RUNNING
                 then c\<lparr>status := STOPPED, completedAt := Some (now (snd s))\<rparr> else c)"
    unfolding stop_def i by (simp add: c stop_agent_def Let_def n update_conv')
qed

lemma stop_not_found:
  assumes "map_of (agents (fst (initialize env s))) i = None"
  shows "stop env i s = (False, initialize env s)"
proof -
  obtain m w where i: "initialize env s = (m, w)" by (cases "initialize env s")
  show ?thesis unfolding stop_def i using assms i by simp
qed


lemma idle_stop:
  "stop env ''agent-1'' (holding 1 idle_agent, idle_world) =
     (False,
      (manager_with 1)\<lparr>agentConfigs := Some loadDefaultAgentConfigs,
         effortModelMap := Some (resolveEffortModelMap loadDefaultAgentConfigs),
         agents := [(''agent-1'', idle_agent\<lparr>status := RUNNING\<rparr>)]\<rparr>,
      idle_world\<lparr>readdir_calls := 1\<rparr>)"
proof -
  have h: "holding 1 idle_agent = (manager_with 1)\<lparr>agents := [(''agent-1'', idle_agent)]\<rparr>"
    by (simp add: holding_def idle_agent_def new_AgentProcess_def)
  show ?thesis
    unfolding stop_def h idle_initialize
    by (simp add: stop_agent_def idle_agent_def new_AgentProcess_def pid_set_def)
qed

lemma stopped_reload:
  "fromMeta (toMeta stopped_agent) = stopped_agent\<lparr>status := RUNNING\<rparr>"
  by (simp add: fromMeta_def toMeta_def stopped_agent_def sample_agent_def new_AgentProcess_def
      or_null_def AgentStatus_index_def)

lemma stopped_update:
  assumes "disk w = disk stopped_world" and "alive w = alive stopped_world"
  shows "updateStatusFromProcess env (stopped_agent\<lparr>status := RUNNING\<rparr>) w =
           (stopped_agent\<lparr>status := FAILED, completedAt := Some 1000\<rparr>,
            saveMeta (stopped_agent\<lparr>status := FAILED, completedAt := Some 1000\<rparr>) w)"
proof -
  let ?a = "stopped_agent\<lparr>status := RUNNING\<rparr>"
  have fl: "pid ?a = Some 999999" "status ?a = RUNNING" "agentId ?a = ''agent-1''"
    "eventsCache ?a = []" "startedAt ?a = 1000"
    by (simp_all add: stopped_agent_def sample_agent_fields)
  have lg: "log_of w ?a = None"
    by (simp add: log_of_def assms stopped_world_def fl)
  have fc: "fallbackCompletion ?a = 1000"
    by (simp add: fallbackCompletion_def getLatestEventTime_def fl)
  have al: "alive w p = False" for p by (simp add: assms stopped_world_def)
  show ?thesis
    unfolding updateStatusFromProcess_def
    by (simp add: lg fc al fl pid_set_def isProcessAlive_def reapProcess_def Let_def)
qed

lemma stopped_initialize:
  "initialize env (holding 1 stopped_agent, stopped_world) =
     ((holding 1 stopped_agent)\<lparr>agentConfigs := Some loadDefaultAgentConfigs,
         effortModelMap := Some (resolveEffortModelMap loadDefaultAgentConfigs),
         agents := [(''agent-1'', stopped_agent\<lparr>status := FAILED, completedAt := Some 1000\<rparr>)]\<rparr>,
      saveMeta (stopped_agent\<lparr>status := FAILED, completedAt := Some 1000\<rparr>)
        (stopped_world\<lparr>readdir_calls := 1\<rparr>))"
proof -
  have i: "agentId stopped_agent = ''agent-1''"
    by (simp add: stopped_agent_def sample_agent_fields)
  have d: "disk stopped_world
             = [(''agent-1'', \<lparr>meta_json = Some (toMeta stopped_agent), stdout_log = None\<rparr>)]"
    by (simp add: stopped_world_def)
  have c: "\<not> (case m_completed_at (toMeta stopped_agent) of
                  Some t \<Rightarrow> t < now stopped_world - cleanupAgeDays (holding 1 stopped_agent) * 24 * 60 * 60 * 1000
                | None \<Rightarrow> False)"
    by (simp add: toMeta_def stopped_agent_def stopped_world_def holding_def manager_with_def)
  have r: "readdir_calls stopped_world = 0" by (simp add: stopped_world_def)
  have f: "filterByCwd (holding 1 stopped_agent) = None"
    and cfg: "constructorAgentConfigs (holding 1 stopped_agent) = None"
    by (simp_all add: holding_def manager_with_def)
  have mt: "meta_json \<lparr>meta_json = Some (toMeta stopped_agent), stdout_log = None\<rparr>
              = Some (toMeta stopped_agent)" by simp
  have u: "updateStatusFromProcess env (stopped_agent\<lparr>status := RUNNING\<rparr>)
             (stopped_world\<lparr>readdir_calls := readdir_calls stopped_world + 1\<rparr>) =
           (stopped_agent\<lparr>status := FAILED, completedAt := Some 1000\<rparr>,
            saveMeta (stopped_agent\<lparr>status := FAILED, completedAt := Some 1000\<rparr>)
              (stopped_world\<lparr>readdir_calls := readdir_calls stopped_world + 1\<rparr>))"
    by (rule stopped_update) simp_all
  show ?thesis
    unfolding initialize_one_record[OF d mt f c cfg] stopped_reload u
    by (simp add: holding_def manager_with_def i r)
qed

lemma stopped_stop:
  "fst (stop env ''agent-1'' (holding 1 stopped_agent, stopped_world)) = False"
  "map_of (agents (fst (snd (stop env ''agent-1'' (holding 1 stopped_agent, stopped_world)))))
     ''agent-1'' = Some (stopped_agent\<lparr>status := FAILED, completedAt := Some 1000\<rparr>)"
  unfolding stop_def stopped_initialize
  by (simp_all add: stop_agent_def holding_def)


lemma busy_found:
  "map_of (agents (fst (initialize sample_env (manager_with 1, busy_world)))) ''agent-1''
     = Some live_agent"
  "map_of (agents (fst (initialize sample_env (manager_with 1, busy_world)))) ''nobody'' = None"
proof -
  have m: "manager_with 1 = (manager_with 1)\<lparr>agents := []\<rparr>" by (simp add: manager_with_def)
  have i: "agents (fst (initialize sample_env (manager_with 1, busy_world)))
             = [(''agent-1'', live_agent)]"
    by (subst m, subst busy_initialize_holding) simp
  show "map_of (agents (fst (initialize sample_env (manager_with 1, busy_world)))) ''agent-1''
     = Some live_agent"
       "map_of (agents (fst (initialize sample_env (manager_with 1, busy_world)))) ''nobody'' = None"
    unfolding i by simp_all
qed


end
